theory Spec2Isabelle
  imports Main "HOL-Library.Multiset"
begin

section \<open>JavaScript values\<close>

text \<open>
  The values the two components handle: what \<^verbatim>\<open>JSON.parse\<close> and \<^verbatim>\<open>res.json()\<close>
  produce, \<^verbatim>\<open>undefined\<close> for a property that is not there, and a built-in
  function object (strings and arrays inherit the method \<^verbatim>\<open>at\<close>, which
  \<^verbatim>\<open>readCache\<close> can meet when it destructures a stored JSON string or array).
  Numbers are integers: epoch milliseconds, HTTP status codes and the counts of
  the GitHub API, all in the range where a JavaScript number is exact and prints
  as its decimal digits. An object is the list of its own properties, each key
  once.
\<close>

datatype jsval =
    JUndefined
  | JNull
  | JBool bool
  | JNum int
  | JStr string
  | JArr "jsval list"
  | JObj "(string \<times> jsval) list"
  | JNative string

text \<open>An exception object: its \<^verbatim>\<open>name\<close> and its \<^verbatim>\<open>message\<close>.\<close>

datatype exn = Exn (exn_name: string) (exn_message: string)

text \<open>
  The kinds of \<^verbatim>\<open>TypeError\<close> the engine itself can raise in this program:
  reading a property of \<^verbatim>\<open>null\<close> or \<^verbatim>\<open>undefined\<close>, calling what is not a function,
  and converting an object that has no primitive value.
\<close>

datatype type_error =
    ReadOfNullish jsval string
  | NotAFunction string
  | NoPrimitive jsval

text \<open>
  What the program takes from its runtime. \<^verbatim>\<open>JSON.parse\<close> throws on text that
  is not JSON; \<^verbatim>\<open>Intl.NumberFormat(undefined, {notation: "compact"}).format\<close>
  throws where the formatter is unavailable or its argument has no numeric
  value; \<open>StringToNumber\<close> is the numeric reading of a string (\<open>None\<close> is
  \<^verbatim>\<open>NaN\<close>); \<open>toLocaleDateString\<close> stands for
  \<^verbatim>\<open>new Date(v).toLocaleDateString()\<close>; \<open>TypeError_text\<close> is the engine's
  wording of its own errors.
\<close>

record runtime =
  JSON_parse :: "string \<Rightarrow> exn + jsval"
  JSON_stringify :: "jsval \<Rightarrow> string"
  StringToNumber :: "string \<Rightarrow> int option"
  NumberFormat_compact :: "jsval \<Rightarrow> exn + string"
  toLocaleDateString :: "jsval \<Rightarrow> exn + string"
  TypeError_text :: "type_error \<Rightarrow> string"

text \<open>Sequencing of steps that may throw: the first exception ends the sequence.\<close>

definition then_do :: "exn + 'a \<Rightarrow> ('a \<Rightarrow> exn + 'b) \<Rightarrow> exn + 'b" where
  "then_do r f = (case r of Inl e \<Rightarrow> Inl e | Inr v \<Rightarrow> f v)"

fun map_throw :: "('a \<Rightarrow> exn + 'b) \<Rightarrow> 'a list \<Rightarrow> exn + 'b list" where
  "map_throw f [] = Inr []"
| "map_throw f (x # xs) =
     then_do (f x) (\<lambda>y. then_do (map_throw f xs) (\<lambda>ys. Inr (y # ys)))"

text \<open>Truthiness, as \<^verbatim>\<open>!v\<close>, \<^verbatim>\<open>v ? a : b\<close> and \<^verbatim>\<open>v || w\<close> read it.\<close>

fun truthy :: "jsval \<Rightarrow> bool" where
  "truthy JUndefined = False"
| "truthy JNull = False"
| "truthy (JBool b) = b"
| "truthy (JNum n) = (n \<noteq> 0)"
| "truthy (JStr s) = (s \<noteq> [])"
| "truthy (JArr xs) = True"
| "truthy (JObj ps) = True"
| "truthy (JNative f) = True"

text \<open>Decimal digits of a natural number, most significant first.\<close>

definition digit_char :: "nat \<Rightarrow> char" where
  "digit_char d = ''0123456789'' ! d"

fun digits :: "nat \<Rightarrow> string" where
  "digits n = (if n < 10 then [digit_char n] else digits (n div 10) @ [digit_char (n mod 10)])"

definition number_text :: "int \<Rightarrow> string" where
  "number_text n = (if n < 0 then CHR ''-'' # digits (nat (- n)) else digits (nat n))"

text \<open>\<^verbatim>\<open>Array.prototype.join\<close> on strings.\<close>

fun join :: "string \<Rightarrow> string list \<Rightarrow> string" where
  "join sep [] = []"
| "join sep [x] = x"
| "join sep (x # y # ys) = x @ sep @ join sep (y # ys)"

text \<open>
  \<^verbatim>\<open>String(v)\<close>. An array joins its elements with commas, \<^verbatim>\<open>null\<close> and
  \<^verbatim>\<open>undefined\<close> elements as empty strings. An object answers with the inherited
  \<^verbatim>\<open>toString\<close>, unless it has a property of that name of its own: a parsed
  value is never a function, so the conversion then finds no primitive value and
  throws.
\<close>

fun js_String :: "runtime \<Rightarrow> jsval \<Rightarrow> exn + string"
  and js_join :: "runtime \<Rightarrow> jsval list \<Rightarrow> exn + string" where
  "js_String rt JUndefined = Inr ''undefined''"
| "js_String rt JNull = Inr ''null''"
| "js_String rt (JBool b) = Inr (if b then ''true'' else ''false'')"
| "js_String rt (JNum n) = Inr (number_text n)"
| "js_String rt (JStr s) = Inr s"
| "js_String rt (JArr xs) = js_join rt xs"
| "js_String rt (JObj ps) =
     (if map_of ps ''toString'' = None then Inr ''[object Object]''
      else Inl (Exn ''TypeError'' (TypeError_text rt (NoPrimitive (JObj ps)))))"
| "js_String rt (JNative f) = Inr (''function '' @ f @ ''() { [native code] }'')"
| "js_join rt [] = Inr []"
| "js_join rt [x] = (if x = JUndefined \<or> x = JNull then Inr [] else js_String rt x)"
| "js_join rt (x # y # ys) =
     then_do (if x = JUndefined \<or> x = JNull then Inr [] else js_String rt x)
       (\<lambda>s. then_do (js_join rt (y # ys)) (\<lambda>t. Inr (s @ '','' @ t)))"

text \<open>
  The number a value stands for in \<^verbatim>\<open>Date.now() - at\<close>; \<open>None\<close> is \<^verbatim>\<open>NaN\<close>. An
  array or an object is converted to its string first, which may throw; the
  string of an object is no number.
\<close>

fun to_number :: "runtime \<Rightarrow> jsval \<Rightarrow> exn + int option" where
  "to_number rt JUndefined = Inr None"
| "to_number rt JNull = Inr (Some 0)"
| "to_number rt (JBool b) = Inr (Some (if b then 1 else 0))"
| "to_number rt (JNum n) = Inr (Some n)"
| "to_number rt (JStr s) = Inr (StringToNumber rt s)"
| "to_number rt (JArr xs) = then_do (js_String rt (JArr xs)) (\<lambda>s. Inr (StringToNumber rt s))"
| "to_number rt (JObj ps) = then_do (js_String rt (JObj ps)) (\<lambda>s. Inr None)"
| "to_number rt (JNative f) = Inr None"

text \<open>
  Reading the property \<open>k\<close> of \<open>v\<close>, for the names this program reads
  (\<^verbatim>\<open>at\<close>, \<^verbatim>\<open>data\<close> and the fields of a repository). Of the inherited
  properties only \<^verbatim>\<open>at\<close> (strings and arrays) is among them; a function object
  has its \<^verbatim>\<open>name\<close>. Reading a property of \<^verbatim>\<open>null\<close> or \<^verbatim>\<open>undefined\<close> throws.
\<close>

fun get_prop :: "runtime \<Rightarrow> jsval \<Rightarrow> string \<Rightarrow> exn + jsval" where
  "get_prop rt JUndefined k =
     Inl (Exn ''TypeError'' (TypeError_text rt (ReadOfNullish JUndefined k)))"
| "get_prop rt JNull k =
     Inl (Exn ''TypeError'' (TypeError_text rt (ReadOfNullish JNull k)))"
| "get_prop rt (JObj ps) k = Inr (case map_of ps k of Some v \<Rightarrow> v | None \<Rightarrow> JUndefined)"
| "get_prop rt (JStr s) k = Inr (if k = ''at'' then JNative ''at'' else JUndefined)"
| "get_prop rt (JArr xs) k = Inr (if k = ''at'' then JNative ''at'' else JUndefined)"
| "get_prop rt (JNative f) k = Inr (if k = ''name'' then JStr f else JUndefined)"
| "get_prop rt (JBool b) k = Inr JUndefined"
| "get_prop rt (JNum n) k = Inr JUndefined"

section \<open>The browser's key-value store\<close>

text \<open>
  \<^verbatim>\<open>localStorage\<close>: the stored strings, whether the store can be reached at all
  (any access throws otherwise), and which writes it admits (\<^verbatim>\<open>setItem\<close> throws
  on the others, for example when the quota is exceeded). The messages of these
  exceptions are the browser's; both callers discard them.
\<close>

record storage =
  accessible :: bool
  entries :: "string \<Rightarrow> string option"
  admits :: "string \<Rightarrow> string \<Rightarrow> bool"

definition getItem :: "storage \<Rightarrow> string \<Rightarrow> exn + string option" where
  "getItem st k = (if accessible st then Inr (entries st k) else Inl (Exn ''SecurityError'' []))"

definition setItem :: "storage \<Rightarrow> string \<Rightarrow> string \<Rightarrow> exn + storage" where
  "setItem st k v =
     (if \<not> accessible st then Inl (Exn ''SecurityError'' [])
      else if \<not> admits st k v then Inl (Exn ''QuotaExceededError'' [])
      else Inr (st\<lparr>entries := (entries st)(k \<mapsto> v)\<rparr>))"

section \<open>GitHubRepoStats.jsx: the cache\<close>

definition CACHE_TTL_MS :: int where
  "CACHE_TTL_MS = 10 * 60 * 1000"

text \<open>
  \<^verbatim>\<open>readCache(key)\<close>, with \<open>now\<close> the value of \<^verbatim>\<open>Date.now()\<close>. Every exception of
  the body ends in the \<^verbatim>\<open>catch\<close>, which returns \<^verbatim>\<open>null\<close>. The subtraction is
  evaluated only when \<^verbatim>\<open>at\<close> is truthy, and a comparison with \<^verbatim>\<open>NaN\<close> is false.
\<close>

definition readCache :: "runtime \<Rightarrow> storage \<Rightarrow> int \<Rightarrow> string \<Rightarrow> jsval" where
  "readCache rt st now key =
     (case getItem st key of
        Inl e \<Rightarrow> JNull
      | Inr None \<Rightarrow> JNull
      | Inr (Some raw) \<Rightarrow>
          if raw = [] then JNull
          else (case JSON_parse rt raw of
                  Inl e \<Rightarrow> JNull
                | Inr v \<Rightarrow>
                    (case get_prop rt v ''at'' of
                       Inl e \<Rightarrow> JNull
                     | Inr at \<Rightarrow>
                         (case get_prop rt v ''data'' of
                            Inl e \<Rightarrow> JNull
                          | Inr data \<Rightarrow>
                              if \<not> truthy at then JNull
                              else (case to_number rt at of
                                      Inl e \<Rightarrow> JNull
                                    | Inr None \<Rightarrow> data
                                    | Inr (Some t) \<Rightarrow>
                                        if now - t > CACHE_TTL_MS then JNull else data)))))"

text \<open>
  \<^verbatim>\<open>writeCache(key, data)\<close>: the body of the \<^verbatim>\<open>try\<close>, then the function with its
  empty \<^verbatim>\<open>catch\<close>, which leaves the store as it was.
\<close>

definition writeCache_try :: "runtime \<Rightarrow> storage \<Rightarrow> int \<Rightarrow> string \<Rightarrow> jsval \<Rightarrow> exn + storage" where
  "writeCache_try rt st now key data =
     setItem st key (JSON_stringify rt (JObj [(''at'', JNum now), (''data'', data)]))"

definition writeCache :: "runtime \<Rightarrow> storage \<Rightarrow> int \<Rightarrow> string \<Rightarrow> jsval \<Rightarrow> storage" where
  "writeCache rt st now key data =
     (case writeCache_try rt st now key data of Inl e \<Rightarrow> st | Inr st' \<Rightarrow> st')"

section \<open>GitHubRepoStats.jsx: fetching one repository\<close>

text \<open>
  The request \<^verbatim>\<open>fetchRepo\<close> issues, and what comes back: the status code and what
  \<^verbatim>\<open>res.json()\<close> settles to (it rejects on a body that is not JSON). The network
  is a function from the request to either a rejection of \<^verbatim>\<open>fetch\<close> itself (a
  transport failure) or a response.
\<close>

record request =
  req_url :: string
  req_accept :: string
  req_cache :: string

record response =
  resp_status :: nat
  resp_json :: "exn + jsval"

text \<open>\<^verbatim>\<open>res.ok\<close>: the status is in the range 200 to 299.\<close>

definition resp_ok :: "response \<Rightarrow> bool" where
  "resp_ok res = (200 \<le> resp_status res \<and> resp_status res \<le> 299)"

definition repo_request :: "string \<Rightarrow> request" where
  "repo_request userRepo =
     \<lparr>req_url = ''https://api.github.com/repos/'' @ userRepo,
      req_accept = ''application/vnd.github+json'',
      req_cache = ''no-store''\<rparr>"

definition fetchRepo :: "(request \<Rightarrow> exn + response) \<Rightarrow> string \<Rightarrow> exn + jsval" where
  "fetchRepo fetch userRepo =
     (case fetch (repo_request userRepo) of
        Inl e \<Rightarrow> Inl e
      | Inr res \<Rightarrow>
          if \<not> resp_ok res
          then Inl (Exn ''Error'' (userRepo @ '' '' @ number_text (int (resp_status res))))
          else resp_json res)"

text \<open>
  The callback of \<^verbatim>\<open>fetchRepo(r).then(...)\<close>: the RepoSummary built from the
  response \<open>j\<close>, its properties read in the order of the object literal.
\<close>

definition summary_fields :: "string list" where
  "summary_fields =
     [''name'', ''full_name'', ''html_url'', ''description'', ''stargazers_count'',
      ''forks_count'', ''open_issues_count'', ''pushed_at'', ''language'']"

definition summarize :: "runtime \<Rightarrow> string \<Rightarrow> jsval \<Rightarrow> exn + jsval" where
  "summarize rt r j =
     then_do (map_throw (\<lambda>k. then_do (get_prop rt j k) (\<lambda>v. Inr (k, v))) summary_fields)
       (\<lambda>props. Inr (JObj ((''id'', JStr r) # props)))"

definition fetch_summary :: "runtime \<Rightarrow> (request \<Rightarrow> exn + response) \<Rightarrow> string \<Rightarrow> exn + jsval" where
  "fetch_summary rt fetch r = then_do (fetchRepo fetch r) (summarize rt r)"

section \<open>GitHubRepoStats.jsx: the fetch cycle\<close>

text \<open>
  \<^verbatim>\<open>repos.map((r) => fetchRepo(r).then(...))\<close>: one promise per identifier, in the
  order of the list. \<open>net i\<close> is the network as the \<open>i\<close>-th request of the cycle
  meets it, so two requests for one identifier may end differently.
\<close>

definition cycle_promises ::
  "runtime \<Rightarrow> (nat \<Rightarrow> request \<Rightarrow> exn + response) \<Rightarrow> string list \<Rightarrow> (exn + jsval) list" where
  "cycle_promises rt net repos = map (\<lambda>(i, r). fetch_summary rt (net i) r) (enumerate 0 repos)"

text \<open>
  \<^verbatim>\<open>Promise.all\<close>. \<open>ps\<close> is what each promise settles to, by position;
  \<open>arrivals\<close> is the order in which they settle, a list of positions. A
  fulfilment stores its value at its position and counts down; the count reaching
  zero fulfils the whole with the values in list order. The first rejection to
  arrive rejects the whole. \<open>None\<close>: the whole is still pending when the arrivals
  end. An empty list of promises is fulfilled at once.
\<close>

fun all_settle ::
  "(exn + jsval) list \<Rightarrow> nat list \<Rightarrow> jsval list \<Rightarrow> nat \<Rightarrow> (exn + jsval list) option" where
  "all_settle ps [] vals remaining = None"
| "all_settle ps (i # arrivals) vals remaining =
     (if length ps \<le> i then all_settle ps arrivals vals remaining
      else (case ps ! i of
              Inl e \<Rightarrow> Some (Inl e)
            | Inr v \<Rightarrow>
                if remaining - 1 = 0 then Some (Inr (vals[i := v]))
                else all_settle ps arrivals (vals[i := v]) (remaining - 1)))"

definition Promise_all :: "(exn + jsval) list \<Rightarrow> nat list \<Rightarrow> (exn + jsval list) option" where
  "Promise_all ps arrivals =
     (if ps = [] then Some (Inr [])
      else all_settle ps arrivals (replicate (length ps) JUndefined) (length ps))"

text \<open>The state of the component: \<^verbatim>\<open>items\<close>, \<^verbatim>\<open>status\<close>, \<^verbatim>\<open>error\<close>.\<close>

datatype fetch_status = StLoading | StReady | StError

record component =
  items :: jsval
  status :: fetch_status
  error :: "string option"

definition cacheKey :: "string list \<Rightarrow> string" where
  "cacheKey repos = ''gh:repos:'' @ join '','' repos"

text \<open>
  The first render: the three \<^verbatim>\<open>useState\<close> initialisers, with \<open>now\<close> the clock
  when \<^verbatim>\<open>readCache\<close> runs.
\<close>

definition mount :: "runtime \<Rightarrow> storage \<Rightarrow> int \<Rightarrow> string list \<Rightarrow> component" where
  "mount rt st now repos =
     (let cached = readCache rt st now (cacheKey repos)
      in \<lparr>items = cached,
          status = (if truthy cached then StReady else StLoading),
          error = None\<rparr>)"

text \<open>
  What one run of the effect closes over: the key and the identifier list of its
  render, and its \<^verbatim>\<open>cancelled\<close> flag, which the cleanup function sets.
\<close>

record effect =
  eff_key :: string
  eff_repos :: "string list"
  cancelled :: bool

definition start_effect :: "string list \<Rightarrow> effect" where
  "start_effect repos = \<lparr>eff_key = cacheKey repos, eff_repos = repos, cancelled = False\<rparr>"

definition cleanup :: "effect \<Rightarrow> effect" where
  "cleanup eff = eff\<lparr>cancelled := True\<rparr>"

text \<open>\<^verbatim>\<open>String(e?.message || e)\<close>: the message, or the error's name when it is empty.\<close>

definition error_text :: "exn \<Rightarrow> string" where
  "error_text e = (if exn_message e \<noteq> [] then exn_message e else exn_name e)"

text \<open>
  The code after the \<^verbatim>\<open>await\<close>: \<open>outcome\<close> is what \<^verbatim>\<open>Promise.all\<close> settled to,
  \<open>now\<close> the clock then, \<open>eff\<close> the closure with its flag as it is then. It acts on
  the state of the component and on the store.
\<close>

definition settle ::
  "runtime \<Rightarrow> int \<Rightarrow> effect \<Rightarrow> exn + jsval list \<Rightarrow> component \<times> storage \<Rightarrow> component \<times> storage" where
  "settle rt now eff outcome w =
     (case w of (c, st) \<Rightarrow>
        (case outcome of
           Inr results \<Rightarrow>
             if \<not> cancelled eff
             then (c\<lparr>items := JArr results, status := StReady\<rparr>,
                   writeCache rt st now (eff_key eff) (JArr results))
             else (c, st)
         | Inl e \<Rightarrow>
             if \<not> cancelled eff
             then (c\<lparr>error := Some (error_text e), status := StError\<rparr>, st)
             else (c, st)))"

text \<open>One whole cycle: the requests, their arrival, the settlement if there is one.\<close>

definition fetch_cycle ::
  "runtime \<Rightarrow> (nat \<Rightarrow> request \<Rightarrow> exn + response) \<Rightarrow> nat list \<Rightarrow> int \<Rightarrow> effect \<Rightarrow>
   component \<times> storage \<Rightarrow> component \<times> storage" where
  "fetch_cycle rt net arrivals now eff w =
     (case Promise_all (cycle_promises rt net (eff_repos eff)) arrivals of
        None \<Rightarrow> w
      | Some outcome \<Rightarrow> settle rt now eff outcome w)"

text \<open>
  The life of one mounted component. \<open>effects\<close> holds every closure the effect
  has created, oldest first; the effect runs again when the key changes
  (\<^verbatim>\<open>[cacheKey]\<close> is its dependency list), after the cleanup of the run before,
  and unmounting runs the cleanup of the last one. \<open>Settle k outcome now\<close> is the
  \<^verbatim>\<open>Promise.all\<close> of the \<open>k\<close>-th run settling.
\<close>

record inst =
  comp :: component
  store :: storage
  props :: "string list"
  mounted :: bool
  effects :: "effect list"

datatype event =
    Rerender "string list"
  | Unmount
  | Settle nat "exn + jsval list" int

definition cancel_last :: "effect list \<Rightarrow> effect list" where
  "cancel_last effs = (case rev effs of [] \<Rightarrow> [] | e # es \<Rightarrow> rev (cleanup e # es))"

definition mount_instance :: "runtime \<Rightarrow> storage \<Rightarrow> int \<Rightarrow> string list \<Rightarrow> inst" where
  "mount_instance rt st now repos =
     \<lparr>comp = mount rt st now repos, store = st, props = repos, mounted = True,
      effects = [start_effect repos]\<rparr>"

fun step :: "runtime \<Rightarrow> inst \<Rightarrow> event \<Rightarrow> inst" where
  "step rt w (Rerender repos') =
     (if \<not> mounted w then w
      else if cacheKey repos' = cacheKey (props w) then w\<lparr>props := repos'\<rparr>
      else w\<lparr>props := repos', effects := cancel_last (effects w) @ [start_effect repos']\<rparr>)"
| "step rt w Unmount =
     (if \<not> mounted w then w
      else w\<lparr>mounted := False, effects := cancel_last (effects w)\<rparr>)"
| "step rt w (Settle k outcome now) =
     (if k < length (effects w)
      then (case settle rt now (effects w ! k) outcome (comp w, store w) of
              (c, st) \<Rightarrow> w\<lparr>comp := c, store := st\<rparr>)
      else w)"

definition run :: "runtime \<Rightarrow> inst \<Rightarrow> event list \<Rightarrow> inst" where
  "run rt w evs = foldl (step rt) w evs"

section \<open>GitHubRepoStats.jsx: rendering\<close>

text \<open>\<^verbatim>\<open>compact(n)\<close>: the formatter, and \<^verbatim>\<open>String(n)\<close> in the \<^verbatim>\<open>catch\<close>.\<close>

definition compact :: "runtime \<Rightarrow> jsval \<Rightarrow> exn + string" where
  "compact rt n =
     (case NumberFormat_compact rt n of Inr s \<Rightarrow> Inr s | Inl e \<Rightarrow> js_String rt n)"

text \<open>A fallback badge: the link, and the image inside it.\<close>

record badge =
  badge_key :: string
  badge_href :: string
  badge_alt :: string
  badge_src :: string

definition fallback_badge :: "string \<Rightarrow> badge" where
  "fallback_badge r =
     \<lparr>badge_key = r,
      badge_href = ''https://github.com/'' @ r,
      badge_alt = r @ '' stars'',
      badge_src = ''https://img.shields.io/github/stars/'' @ r @ ''?style=flat''\<rparr>"

text \<open>
  A card: the values the component places in the element, the language and the
  description only when they are truthy.
\<close>

record card =
  card_key :: jsval
  card_href :: jsval
  card_name :: jsval
  card_language :: "jsval option"
  card_description :: "jsval option"
  card_stars :: string
  card_forks :: string
  card_issues :: string
  card_updated :: string

definition render_card :: "runtime \<Rightarrow> jsval \<Rightarrow> exn + card" where
  "render_card rt it =
     then_do (get_prop rt it ''full_name'') (\<lambda>full_name.
     then_do (get_prop rt it ''html_url'') (\<lambda>html_url.
     then_do (get_prop rt it ''name'') (\<lambda>name.
     then_do (get_prop rt it ''language'') (\<lambda>language.
     then_do (get_prop rt it ''description'') (\<lambda>description.
     then_do (get_prop rt it ''stargazers_count'') (\<lambda>stargazers_count.
     then_do (compact rt stargazers_count) (\<lambda>stars.
     then_do (get_prop rt it ''forks_count'') (\<lambda>forks_count.
     then_do (compact rt forks_count) (\<lambda>forks.
     then_do (get_prop rt it ''open_issues_count'') (\<lambda>open_issues_count.
     then_do (compact rt open_issues_count) (\<lambda>issues.
     then_do (get_prop rt it ''pushed_at'') (\<lambda>pushed_at.
     then_do (toLocaleDateString rt pushed_at) (\<lambda>updated.
       Inr \<lparr>card_key = full_name,
            card_href = html_url,
            card_name = name,
            card_language = (if truthy language then Some language else None),
            card_description = (if truthy description then Some description else None),
            card_stars = stars,
            card_forks = forks,
            card_issues = issues,
            card_updated = updated\<rparr>)))))))))))))"

text \<open>
  The three views: the loading line, the error view with the \<^verbatim>\<open>error\<close> of the
  state and the badges, and the grid of cards.
\<close>

datatype view =
    LoadingView
  | ErrorView "string option" "badge list"
  | GridView "card list"

text \<open>
  The element the component returns, for the identifier list \<open>repos\<close> of this
  render. A view holds what depends on the data: the fixed texts (the loading
  line, \<^verbatim>\<open>GitHub API error:\<close> before the error, \<^verbatim>\<open>Fallback badges:\<close>), the styles
  and the fixed attributes are left out. \<^verbatim>\<open>items?.map\<close> gives no cards for
  \<^verbatim>\<open>null\<close> and \<^verbatim>\<open>undefined\<close>, maps an array, and throws on any other value, which
  has no function \<^verbatim>\<open>map\<close>.
\<close>

definition render :: "runtime \<Rightarrow> string list \<Rightarrow> component \<Rightarrow> exn + view" where
  "render rt repos c =
     (if status c = StLoading then Inr LoadingView
      else if status c = StError then Inr (ErrorView (error c) (map fallback_badge repos))
      else (case items c of
              JUndefined \<Rightarrow> Inr (GridView [])
            | JNull \<Rightarrow> Inr (GridView [])
            | JArr xs \<Rightarrow> then_do (map_throw (render_card rt) xs) (\<lambda>cards. Inr (GridView cards))
            | _ \<Rightarrow> Inl (Exn ''TypeError'' (TypeError_text rt (NotAFunction ''items.map'')))))"

section \<open>Counter.jsx\<close>

text \<open>
  The state \<open>n\<close> of \<^verbatim>\<open>useState(0)\<close>, the click handler \<^verbatim>\<open>setN(n + 1)\<close>, and the
  text of the button. Mounting takes nothing from an earlier mount.
\<close>

definition Counter_mount :: int where
  "Counter_mount = 0"

definition Counter_click :: "int \<Rightarrow> int" where
  "Counter_click n = n + 1"

definition Counter_render :: "int \<Rightarrow> string" where
  "Counter_render n = ''Count: '' @ number_text n"

datatype counter_event = Activate | Remount

fun Counter_step :: "int \<Rightarrow> counter_event \<Rightarrow> int" where
  "Counter_step n Activate = Counter_click n"
| "Counter_step n Remount = Counter_mount"

definition Counter_run :: "counter_event list \<Rightarrow> int" where
  "Counter_run evs = foldl Counter_step Counter_mount evs"

section \<open>Notions the properties are stated with\<close>

text \<open>
  The position of the first rejection to arrive: the first position in the
  arrival order whose promise is rejected.
\<close>

definition first_rejection :: "(exn + jsval) list \<Rightarrow> nat list \<Rightarrow> nat option" where
  "first_rejection ps arrivals = find (\<lambda>i. i < length ps \<and> isl (ps ! i)) arrivals"

text \<open>The field \<open>k\<close> of the response that the fetch of \<open>r\<close> is fulfilled with.\<close>

definition response_field ::
  "runtime \<Rightarrow> (request \<Rightarrow> exn + response) \<Rightarrow> string \<Rightarrow> string \<Rightarrow> jsval" where
  "response_field rt fetch r k = projr (get_prop rt (projr (fetchRepo fetch r)) k)"

text \<open>The number a string of decimal digits denotes.\<close>

definition decimal_value :: "string \<Rightarrow> nat" where
  "decimal_value s = foldl (\<lambda>a c. 10 * a + (of_char c - 48)) 0 s"

text \<open>
  The invariant of the life of a component: only the last run of the effect can
  be live, and none is once the component is unmounted.
\<close>

definition live_only_last :: "inst \<Rightarrow> bool" where
  "live_only_last w =
     (effects w \<noteq> [] \<and>
      (\<forall>e \<in> set (butlast (effects w)). cancelled e) \<and>
      (\<not> mounted w \<longrightarrow> (\<forall>e \<in> set (effects w). cancelled e)))"

section \<open>Example environments\<close>

text \<open>
  A runtime, a store and networks on which the properties below are evaluated.
  The parser knows two texts; the formatter knows the three counts of the
  repository \<^verbatim>\<open>foo/bar\<close> and throws on anything else.
\<close>

definition example_entry :: string where
  "example_entry = ''{\"at\":1700000000000,\"data\":[]}''"

definition example_parse :: "string \<Rightarrow> exn + jsval" where
  "example_parse s =
     (if s = example_entry
      then Inr (JObj [(''at'', JNum 1700000000000), (''data'', JArr [])])
      else if s = ''{\"data\":[]}'' then Inr (JObj [(''data'', JArr [])])
      else if s = ''null'' then Inr JNull
      else if s = ''[1]'' then Inr (JArr [JNum 1])
      else Inl (Exn ''SyntaxError'' ''Unexpected token''))"

text \<open>A serialiser for the values of the examples (it escapes nothing).\<close>

fun example_stringify :: "jsval \<Rightarrow> string" where
  "example_stringify (JNum n) = number_text n"
| "example_stringify (JStr s) = ''\"'' @ s @ ''\"''"
| "example_stringify (JBool b) = (if b then ''true'' else ''false'')"
| "example_stringify (JArr xs) = ''['' @ join '','' (map example_stringify xs) @ '']''"
| "example_stringify (JObj ps) =
     ''{'' @ join '','' (map (\<lambda>(k, v). ''\"'' @ k @ ''\":'' @ example_stringify v) ps) @ ''}''"
| "example_stringify JNull = ''null''"
| "example_stringify JUndefined = ''null''"
| "example_stringify (JNative f) = ''null''"

definition example_runtime :: runtime where
  "example_runtime =
     \<lparr>JSON_parse = example_parse,
      JSON_stringify = example_stringify,
      StringToNumber = (\<lambda>s. None),
      NumberFormat_compact =
        (\<lambda>v. if v = JNum 1234 then Inr ''1.2K''
             else if v = JNum 56 then Inr ''56''
             else if v = JNum 3 then Inr ''3''
             else Inl (Exn ''RangeError'' ''Invalid notation'')),
      toLocaleDateString = (\<lambda>v. Inr ''1/1/2024''),
      TypeError_text = (\<lambda>t. ''Cannot read properties'')\<rparr>"

definition example_store :: "string option \<Rightarrow> storage" where
  "example_store raw =
     \<lparr>accessible = True,
      entries = (\<lambda>k. if k = ''gh:repos:foo/bar'' then raw else None),
      admits = (\<lambda>k v. True)\<rparr>"

definition example_repo :: jsval where
  "example_repo =
     JObj [(''name'', JStr ''bar''), (''full_name'', JStr ''foo/bar''),
           (''html_url'', JStr ''https://github.com/foo/bar''),
           (''stargazers_count'', JNum 1234), (''forks_count'', JNum 56),
           (''open_issues_count'', JNum 3), (''pushed_at'', JStr ''2024-01-01T00:00:00Z''),
           (''language'', JStr ''Go'')]"

text \<open>A network that answers 404 for \<^verbatim>\<open>c/d\<close> and 200 with a repository otherwise.\<close>

definition example_net :: "nat \<Rightarrow> request \<Rightarrow> exn + response" where
  "example_net i q =
     (if req_url q = ''https://api.github.com/repos/c/d''
      then Inr \<lparr>resp_status = 404, resp_json = Inr (JObj [(''message'', JStr ''Not Found'')])\<rparr>
      else Inr \<lparr>resp_status = 200, resp_json = Inr example_repo\<rparr>)"

text \<open>A network that answers 200 with the JSON body \<^verbatim>\<open>null\<close>.\<close>

definition example_null_net :: "nat \<Rightarrow> request \<Rightarrow> exn + response" where
  "example_null_net i q = Inr \<lparr>resp_status = 200, resp_json = Inr JNull\<rparr>"

text \<open>No connection: \<^verbatim>\<open>fetch\<close> itself rejects.\<close>

definition example_offline :: "request \<Rightarrow> exn + response" where
  "example_offline q = Inl (Exn ''TypeError'' ''Failed to fetch'')"

text \<open>A status 200 whose body is not JSON: \<^verbatim>\<open>res.json()\<close> rejects.\<close>

definition example_not_json :: "request \<Rightarrow> exn + response" where
  "example_not_json q =
     Inr \<lparr>resp_status = 200, resp_json = Inl (Exn ''SyntaxError'' ''Unexpected token <'')\<rparr>"

definition example_component :: component where
  "example_component = \<lparr>items = JNull, status = StLoading, error = None\<rparr>"

text \<open>
  A component mounted on \<^verbatim>\<open>["foo/bar"]\<close> with an empty store and then rendered
  again with \<^verbatim>\<open>["a/b"]\<close>: the effect has run twice.
\<close>

definition example_mounted :: inst where
  "example_mounted =
     run example_runtime
       (mount_instance example_runtime (example_store None) 1700000000000 [''foo/bar''])
       [Rerender [''a/b'']]"

section \<open>Properties\<close>

declare digits.simps [simp del]

subsection \<open>Auxiliary facts\<close>

lemma digit_char_cases:
  "d < 10 \<Longrightarrow> d = 0 \<or> d = 1 \<or> d = 2 \<or> d = 3 \<or> d = 4 \<or> d = 5 \<or> d = 6 \<or> d = 7 \<or> d = 8 \<or> d = (9::nat)"
  by arith

lemma of_char_digit_char: "d < 10 \<Longrightarrow> of_char (digit_char d) = (48 + d :: nat)"
  using digit_char_cases [of d] by (auto simp: digit_char_def)

lemma digit_char_in: "d < 10 \<Longrightarrow> digit_char d \<in> set ''0123456789''"
  using digit_char_cases [of d] by (auto simp: digit_char_def)

lemma digits_are_digits: "set (digits n) \<subseteq> set ''0123456789''"
proof (induction n rule: digits.induct)
  case (1 n)
  show ?case
  proof (cases "n < 10")
    case True
    then show ?thesis using digit_char_in [of n] by (subst digits.simps) simp
  next
    case False
    have "n mod 10 < 10" by simp
    then have "digit_char (n mod 10) \<in> set ''0123456789''" by (rule digit_char_in)
    then show ?thesis using False 1 by (subst digits.simps) simp
  qed
qed

lemma decimal_value_digits: "decimal_value (digits n) = n"
proof (induction n rule: digits.induct)
  case (1 n)
  show ?case
  proof (cases "n < 10")
    case True
    then show ?thesis
      by (subst digits.simps) (simp add: decimal_value_def of_char_digit_char)
  next
    case False
    have m: "n mod 10 < 10" by simp
    have "decimal_value (digits n) = 10 * decimal_value (digits (n div 10)) + n mod 10"
      using False by (subst digits.simps) (simp add: decimal_value_def of_char_digit_char [OF m])
    then show ?thesis using False 1 by simp
  qed
qed

lemma cancel_last_snoc: "effs \<noteq> [] \<Longrightarrow> cancel_last effs = butlast effs @ [cleanup (last effs)]"
  by (cases effs rule: rev_cases) (simp_all add: cancel_last_def)

lemma cancel_last_all:
  assumes "effs \<noteq> []" "\<forall>e \<in> set (butlast effs). cancelled e"
  shows "\<forall>e \<in> set (cancel_last effs). cancelled e"
  using assms by (auto simp: cancel_last_snoc cleanup_def)

lemma length_cancel_last: "length (cancel_last effs) = length effs"
  by (cases effs rule: rev_cases) (simp_all add: cancel_last_def)

lemma settle_cancelled: "cancelled eff \<Longrightarrow> settle rt now eff outcome w = w"
  by (cases w; cases outcome) (simp_all add: settle_def)

lemma step_Settle_cancelled:
  "k < length (effects w) \<Longrightarrow> cancelled (effects w ! k) \<Longrightarrow> step rt w (Settle k outcome now) = w"
  by (simp add: settle_cancelled)

lemma live_only_last_mount: "live_only_last (mount_instance rt st now repos)"
  by (simp add: live_only_last_def mount_instance_def)

lemma live_only_last_step:
  assumes "live_only_last w"
  shows "live_only_last (step rt w ev)"
proof (cases ev)
  case (Rerender repos')
  have "\<forall>e \<in> set (cancel_last (effects w)). cancelled e"
    using assms cancel_last_all unfolding live_only_last_def by blast
  then show ?thesis using Rerender assms
    by (auto simp: live_only_last_def)
next
  case Unmount
  have all: "\<forall>e \<in> set (cancel_last (effects w)). cancelled e"
    using assms cancel_last_all unfolding live_only_last_def by blast
  have ne: "cancel_last (effects w) \<noteq> []"
    using assms by (simp add: live_only_last_def cancel_last_snoc)
  have "\<forall>e \<in> set (butlast (cancel_last (effects w))). cancelled e"
    using all by (meson in_set_butlastD)
  then show ?thesis using Unmount all ne assms
    by (simp add: live_only_last_def)
next
  case (Settle k outcome now)
  then show ?thesis using assms
    by (auto simp: live_only_last_def split: prod.splits)
qed

lemma live_only_last_foldl: "live_only_last w \<Longrightarrow> live_only_last (foldl (step rt) w evs)"
  by (induction evs arbitrary: w) (simp_all add: live_only_last_step)

lemma live_only_last_run: "live_only_last (run rt (mount_instance rt st now repos) evs)"
  by (simp add: run_def live_only_last_foldl live_only_last_mount)

lemma all_settle_fulfilled:
  assumes "distinct arrivals" "set arrivals \<subseteq> {..<length ps}" "arrivals \<noteq> []"
    and "\<forall>i \<in> set arrivals. \<not> isl (ps ! i)"
    and "length vals = length ps" "remaining = length arrivals"
    and "\<forall>j < length ps. j \<notin> set arrivals \<longrightarrow> vals ! j = projr (ps ! j)"
  shows "all_settle ps arrivals vals remaining = Some (Inr (map projr ps))"
  using assms
proof (induction arrivals arbitrary: vals remaining)
  case Nil
  then show ?case by simp
next
  case (Cons i rest)
  from Cons.prems have i: "i < length ps" and fi: "\<not> isl (ps ! i)" by auto
  then obtain v where v: "ps ! i = Inr v" by (cases "ps ! i") auto
  have upd: "\<forall>j < length ps. j \<notin> set rest \<longrightarrow> vals[i := v] ! j = projr (ps ! j)"
    using Cons.prems(5,7) i v by (auto simp: nth_list_update)
  show ?case
  proof (cases "rest = []")
    case True
    have "vals[i := v] = map projr ps"
      using upd True Cons.prems(5) by (intro nth_equalityI) auto
    then show ?thesis using True i v Cons.prems(6) by simp
  next
    case False
    have "all_settle ps rest (vals[i := v]) (length rest) = Some (Inr (map projr ps))"
      using Cons.prems False upd by (intro Cons.IH) auto
    then show ?thesis using False i v Cons.prems(6) by simp
  qed
qed

lemma Promise_all_fulfilled:
  assumes "distinct arrivals" "set arrivals = {..<length ps}" "\<forall>p \<in> set ps. \<not> isl p"
  shows "Promise_all ps arrivals = Some (Inr (map projr ps))"
proof (cases "ps = []")
  case True
  then show ?thesis by (simp add: Promise_all_def)
next
  case False
  have "card (set arrivals) = length ps"
    by (simp only: assms(2) card_lessThan)
  then have len: "length ps = length arrivals"
    using assms(1) by (simp only: distinct_card)
  have ne: "arrivals \<noteq> []"
    using False len by auto
  have sub: "set arrivals \<subseteq> {..<length ps}"
    by (simp only: assms(2) subset_refl)
  have ful: "\<forall>i \<in> set arrivals. \<not> isl (ps ! i)"
  proof
    fix i assume "i \<in> set arrivals"
    then have "i < length ps" using sub by auto
    then have "ps ! i \<in> set ps" by (rule nth_mem)
    then show "\<not> isl (ps ! i)" using assms(3) by blast
  qed
  have rest: "\<forall>j < length ps. j \<notin> set arrivals \<longrightarrow>
                replicate (length ps) JUndefined ! j = projr (ps ! j)"
    by (simp only: assms(2)) auto
  have "all_settle ps arrivals (replicate (length ps) JUndefined) (length ps) =
          Some (Inr (map projr ps))"
    by (rule all_settle_fulfilled [OF assms(1) sub ne ful _ len rest]) simp
  then show ?thesis using False by (simp add: Promise_all_def)
qed

lemma all_settle_rejected:
  assumes "find (\<lambda>i. i < length ps \<and> isl (ps ! i)) arrivals = Some i0"
    and "length arrivals \<le> remaining"
  shows "all_settle ps arrivals vals remaining = Some (Inl (projl (ps ! i0)))"
  using assms
proof (induction arrivals arbitrary: vals remaining)
  case Nil
  then show ?case by simp
next
  case (Cons i rest)
  show ?case
  proof (cases "i < length ps \<and> isl (ps ! i)")
    case True
    then have "i0 = i" using Cons.prems(1) by simp
    then show ?thesis using True by (cases "ps ! i") auto
  next
    case False
    then have f: "find (\<lambda>i. i < length ps \<and> isl (ps ! i)) rest = Some i0"
      using Cons.prems(1) by (auto split: if_splits)
    then obtain y ys where "rest = y # ys" by (cases rest) auto
    then have r: "remaining - 1 \<noteq> 0" "length rest \<le> remaining - 1"
      using Cons.prems(2) by simp_all
    have ih: "all_settle ps rest vals' (remaining - 1) = Some (Inl (projl (ps ! i0)))" for vals'
      using f r(2) by (rule Cons.IH)
    have ih2: "all_settle ps rest vals remaining = Some (Inl (projl (ps ! i0)))"
      using f Cons.prems(2) by (intro Cons.IH) auto
    show ?thesis
    proof (cases "length ps \<le> i")
      case True
      then show ?thesis using ih2 by simp
    next
      case False
      with \<open>\<not> (i < length ps \<and> isl (ps ! i))\<close> obtain v where "ps ! i = Inr v"
        by (cases "ps ! i") auto
      then show ?thesis using False r(1) ih by simp
    qed
  qed
qed

lemma Promise_all_rejected:
  assumes "distinct arrivals" "set arrivals \<subseteq> {..<length ps}"
    and "first_rejection ps arrivals = Some i0"
  shows "Promise_all ps arrivals = Some (Inl (projl (ps ! i0)))"
proof -
  have "card (set arrivals) \<le> card {..<length ps}"
    using assms(2) by (intro card_mono) auto
  then have len: "length arrivals \<le> length ps"
    using assms(1) by (simp add: distinct_card)
  have f: "find (\<lambda>i. i < length ps \<and> isl (ps ! i)) arrivals = Some i0"
    using assms(3) by (simp only: first_rejection_def)
  then have "i0 < length ps"
    by (auto simp: find_Some_iff)
  then have "ps \<noteq> []" by auto
  then show ?thesis
    using all_settle_rejected [OF f len] by (simp add: Promise_all_def)
qed

lemma first_rejection_arrives:
  assumes "set arrivals \<subseteq> {..<length ps}" "\<exists>i \<in> set arrivals. isl (ps ! i)"
  shows "\<exists>i0. first_rejection ps arrivals = Some i0 \<and> i0 < length ps \<and> isl (ps ! i0)"
proof -
  from assms(2) obtain i where i: "i \<in> set arrivals" "isl (ps ! i)"
    by blast
  then have "i < length ps"
    using assms(1) by auto
  then have "\<exists>i \<in> set arrivals. i < length ps \<and> isl (ps ! i)"
    using i by blast
  then have "find (\<lambda>i. i < length ps \<and> isl (ps ! i)) arrivals \<noteq> None"
    by (simp only: find_None_iff) blast
  then obtain i0 where "find (\<lambda>i. i < length ps \<and> isl (ps ! i)) arrivals = Some i0"
    by blast
  then show ?thesis
    by (auto simp: first_rejection_def find_Some_iff)
qed

lemma first_rejection_exists:
  assumes "set arrivals = {..<length ps}" "\<exists>p \<in> set ps. isl p"
  shows "\<exists>i0. first_rejection ps arrivals = Some i0 \<and> i0 < length ps \<and> isl (ps ! i0)"
proof -
  from assms(2) obtain i where i: "i < length ps" "isl (ps ! i)"
    by (auto simp: in_set_conv_nth)
  have "i \<in> {..<length ps}" using i(1) by simp
  then have "i \<in> set arrivals" by (simp only: assms(1))
  then have "\<exists>i \<in> set arrivals. isl (ps ! i)"
    using i(2) by blast
  moreover have "set arrivals \<subseteq> {..<length ps}"
    by (simp only: assms(1) subset_refl)
  ultimately show ?thesis
    by (intro first_rejection_arrives)
qed

lemma map_throw_Inr:
  "\<forall>x \<in> set xs. \<not> isl (f x) \<Longrightarrow> map_throw f xs = Inr (map (\<lambda>x. projr (f x)) xs)"
proof (induction xs)
  case Nil
  then show ?case by simp
next
  case (Cons x xs)
  then obtain y where "f x = Inr y" by (cases "f x") auto
  then show ?case using Cons by (simp add: then_do_def)
qed

lemma summarize_nullish: "j = JUndefined \<or> j = JNull \<Longrightarrow> isl (summarize rt r j)"
  by (auto simp: summarize_def summary_fields_def then_do_def)

lemma summarize_value:
  assumes "j \<noteq> JUndefined" "j \<noteq> JNull"
  shows "summarize rt r j =
           Inr (JObj ((''id'', JStr r) # map (\<lambda>k. (k, projr (get_prop rt j k))) summary_fields))"
proof -
  have "\<forall>k \<in> set summary_fields. \<not> isl (then_do (get_prop rt j k) (\<lambda>v. Inr (k, v)))"
    using assms by (cases j) (simp_all add: then_do_def)
  then have "map_throw (\<lambda>k. then_do (get_prop rt j k) (\<lambda>v. Inr (k, v))) summary_fields =
      Inr (map (\<lambda>k. projr (then_do (get_prop rt j k) (\<lambda>v. Inr (k, v)))) summary_fields)"
    by (rule map_throw_Inr)
  moreover have "projr (then_do (get_prop rt j k) (\<lambda>v. Inr (k, v))) = (k, projr (get_prop rt j k))" for k
    using assms by (cases j) (simp_all add: then_do_def)
  ultimately show ?thesis by (simp add: summarize_def then_do_def)
qed

lemma summarize_id:
  assumes "summarize rt r j = Inr s"
  shows "get_prop rt s ''id'' = Inr (JStr r) \<and> (\<exists>ps. s = JObj ps)"
proof -
  have "j \<noteq> JUndefined \<and> j \<noteq> JNull"
    using assms summarize_nullish [of j rt r] by auto
  then show ?thesis using assms by (auto simp: summarize_value)
qed

lemma fetch_summary_id:
  assumes "\<not> isl (fetch_summary rt fetch r)"
  shows "get_prop rt (projr (fetch_summary rt fetch r)) ''id'' = Inr (JStr r) \<and>
         (\<exists>ps. projr (fetch_summary rt fetch r) = JObj ps)"
proof -
  obtain s where s: "fetch_summary rt fetch r = Inr s"
    using assms by (cases "fetch_summary rt fetch r") auto
  then obtain j where "summarize rt r j = Inr s"
    by (auto simp: fetch_summary_def then_do_def split: sum.splits)
  then show ?thesis using s summarize_id by simp
qed

lemma cycle_promises_length: "length (cycle_promises rt net repos) = length repos"
  by (simp add: cycle_promises_def)

lemma cycle_promises_nth:
  "i < length repos \<Longrightarrow> cycle_promises rt net repos ! i = fetch_summary rt (net i) (repos ! i)"
  by (simp add: cycle_promises_def nth_enumerate_eq)

lemma split_at_separator:
  "c \<notin> set x \<Longrightarrow> c \<notin> set y \<Longrightarrow> x @ c # r = y @ c # r' \<Longrightarrow> x = y \<and> r = r'"
proof (induction x arbitrary: y)
  case Nil
  then show ?case by (cases y) auto
next
  case (Cons a x)
  then show ?case by (cases y) auto
qed

lemma join_comma_inj:
  assumes "length xs = length ys"
    and "\<forall>x \<in> set xs. CHR '','' \<notin> set x" "\<forall>y \<in> set ys. CHR '','' \<notin> set y"
    and "join '','' xs = join '','' ys"
  shows "xs = ys"
  using assms
proof (induction xs ys rule: list_induct2)
  case Nil
  then show ?case by simp
next
  case (Cons x xs y ys)
  show ?case
  proof (cases xs)
    case Nil
    then have "ys = []" using Cons.hyps by simp
    then show ?thesis using Nil Cons.prems by simp
  next
    case (Cons x' xs')
    then obtain y' ys' where ys: "ys = y' # ys'"
      using Cons.hyps by (cases ys) auto
    have "x @ CHR '','' # join '','' xs = y @ CHR '','' # join '','' ys"
      using Cons.prems(3) Cons ys by simp
    moreover have "CHR '','' \<notin> set x" "CHR '','' \<notin> set y"
      using Cons.prems(1,2) by simp_all
    ultimately have "x = y \<and> join '','' xs = join '','' ys"
      by (intro split_at_separator)
    then show ?thesis using Cons.IH Cons.prems(1,2) by simp
  qed
qed

lemma writeCache_admitted:
  assumes "accessible st" "admits st key (JSON_stringify rt (JObj [(''at'', JNum now), (''data'', data)]))"
  shows "writeCache rt st now key data =
           st\<lparr>entries := (entries st)(key \<mapsto> JSON_stringify rt (JObj [(''at'', JNum now), (''data'', data)]))\<rparr>"
  using assms by (simp add: writeCache_def writeCache_try_def setItem_def)

lemma readCache_entry:
  assumes "accessible st" "entries st key = Some raw" "raw \<noteq> []"
    "JSON_parse rt raw = Inr (JObj ps)" "map_of ps ''at'' = Some (JNum t)"
  shows "readCache rt st now key =
     (if t = 0 \<or> now - t > CACHE_TTL_MS then JNull
      else (case map_of ps ''data'' of Some v \<Rightarrow> v | None \<Rightarrow> JUndefined))"
  using assms by (simp add: readCache_def getItem_def)

lemma example_repo_not_nullish: "example_repo \<noteq> JUndefined \<and> example_repo \<noteq> JNull"
  by (simp add: example_repo_def)

lemma render_card_fields:
  assumes "render_card rt it = Inr cd"
  shows "get_prop rt it ''full_name'' = Inr (card_key cd) \<and>
    get_prop rt it ''html_url'' = Inr (card_href cd) \<and>
    get_prop rt it ''name'' = Inr (card_name cd) \<and>
    card_language cd =
      (if truthy (projr (get_prop rt it ''language''))
       then Some (projr (get_prop rt it ''language'')) else None) \<and>
    card_description cd =
      (if truthy (projr (get_prop rt it ''description''))
       then Some (projr (get_prop rt it ''description'')) else None) \<and>
    then_do (get_prop rt it ''stargazers_count'') (compact rt) = Inr (card_stars cd) \<and>
    then_do (get_prop rt it ''forks_count'') (compact rt) = Inr (card_forks cd) \<and>
    then_do (get_prop rt it ''open_issues_count'') (compact rt) = Inr (card_issues cd) \<and>
    then_do (get_prop rt it ''pushed_at'') (toLocaleDateString rt) = Inr (card_updated cd)"
  using assms
  by (auto simp: render_card_def then_do_def split: sum.splits)

lemma Counter_run_activate: "foldl Counter_step n (replicate k Activate) = n + int k"
  by (induction k arbitrary: n) (simp_all add: Counter_click_def)

lemma Counter_step_nonneg: "0 \<le> n \<Longrightarrow> 0 \<le> Counter_step n ev"
  by (cases ev) (simp_all add: Counter_click_def Counter_mount_def)

lemma Counter_fold_nonneg: "0 \<le> n \<Longrightarrow> 0 \<le> foldl Counter_step n evs"
  by (induction evs arbitrary: n) (simp_all add: Counter_step_nonneg)

subsection \<open>The fetch cycle\<close>

text \<open>
  C1, as stated, fails: a fetch can succeed and still give no summary. On a
  response with status 200 whose body is the JSON value \<^verbatim>\<open>null\<close>, \<^verbatim>\<open>fetchRepo\<close> is
  fulfilled with \<^verbatim>\<open>null\<close>, reading \<^verbatim>\<open>j.name\<close> in the callback throws, and the
  cycle ends with the status error and the items as they were.
\<close>

theorem fulfilled_fetch_without_items_counterexample:
  "fetchRepo (example_null_net 0) ''foo/bar'' = Inr JNull \<and>
   fetch_cycle example_runtime example_null_net [0] 1700000000000 (start_effect [''foo/bar''])
       (example_component, example_store None) =
     (\<lparr>items = JNull, status = StError, error = Some ''Cannot read properties''\<rparr>,
      example_store None)"
  by (simp add: fetchRepo_def example_null_net_def resp_ok_def fetch_cycle_def
      cycle_promises_def enumerate_eq_zip upt_rec fetch_summary_def summarize_def
      summary_fields_def then_do_def Promise_all_def settle_def start_effect_def
      error_text_def example_runtime_def example_component_def)

text \<open>
  C1, amended. For every identifier list \<open>repos\<close>: when every per-identifier
  fetch is fulfilled with a response other than \<^verbatim>\<open>null\<close> and the cycle is live,
  \<^verbatim>\<open>Promise.all\<close> yields the summaries in the order of \<open>repos\<close> whatever the
  arrival order (any enumeration of the positions), and the state receives
  exactly that list with status ready. The list has one summary per identifier:
  the \<open>i\<close>-th is the object with the \<open>i\<close>-th identifier as its \<^verbatim>\<open>id\<close> and the nine
  fields of the \<open>i\<close>-th response. The component maps the list to cards in that
  order, one card per summary when no card throws, and a card holds the fields
  of its summary.
\<close>

theorem items_follow_identifier_order:
  assumes arrive: "distinct arrivals" "set arrivals = {..<length repos}"
    and ok: "\<forall>i < length repos.
               \<exists>j. fetchRepo (net i) (repos ! i) = Inr j \<and> j \<noteq> JNull \<and> j \<noteq> JUndefined"
    and live: "\<not> cancelled eff" "eff_repos eff = repos"
    and results: "results = map projr (cycle_promises rt net repos)"
  shows
   "Promise_all (cycle_promises rt net repos) arrivals = Some (Inr results) \<and>
    fst (fetch_cycle rt net arrivals now eff (c, st)) = c\<lparr>items := JArr results, status := StReady\<rparr> \<and>
    length results = length repos \<and>
    map (\<lambda>it. get_prop rt it ''id'') results = map (\<lambda>r. Inr (JStr r)) repos \<and>
    (\<forall>i < length repos.
       results ! i =
         JObj [(''id'', JStr (repos ! i)),
               (''name'', response_field rt (net i) (repos ! i) ''name''),
               (''full_name'', response_field rt (net i) (repos ! i) ''full_name''),
               (''html_url'', response_field rt (net i) (repos ! i) ''html_url''),
               (''description'', response_field rt (net i) (repos ! i) ''description''),
               (''stargazers_count'', response_field rt (net i) (repos ! i) ''stargazers_count''),
               (''forks_count'', response_field rt (net i) (repos ! i) ''forks_count''),
               (''open_issues_count'', response_field rt (net i) (repos ! i) ''open_issues_count''),
               (''pushed_at'', response_field rt (net i) (repos ! i) ''pushed_at''),
               (''language'', response_field rt (net i) (repos ! i) ''language'')]) \<and>
    render rt repos (fst (fetch_cycle rt net arrivals now eff (c, st))) =
      then_do (map_throw (render_card rt) results) (\<lambda>cards. Inr (GridView cards)) \<and>
    ((\<forall>it \<in> set results. \<not> isl (render_card rt it)) \<longrightarrow>
       render rt repos (fst (fetch_cycle rt net arrivals now eff (c, st))) =
         Inr (GridView (map (\<lambda>it. projr (render_card rt it)) results))) \<and>
    (\<forall>it cd. render_card rt it = Inr cd \<longrightarrow>
       get_prop rt it ''full_name'' = Inr (card_key cd) \<and>
       get_prop rt it ''html_url'' = Inr (card_href cd) \<and>
       get_prop rt it ''name'' = Inr (card_name cd) \<and>
       card_language cd =
         (if truthy (projr (get_prop rt it ''language''))
          then Some (projr (get_prop rt it ''language'')) else None) \<and>
       card_description cd =
         (if truthy (projr (get_prop rt it ''description''))
          then Some (projr (get_prop rt it ''description'')) else None) \<and>
       then_do (get_prop rt it ''stargazers_count'') (compact rt) = Inr (card_stars cd) \<and>
       then_do (get_prop rt it ''forks_count'') (compact rt) = Inr (card_forks cd) \<and>
       then_do (get_prop rt it ''open_issues_count'') (compact rt) = Inr (card_issues cd) \<and>
       then_do (get_prop rt it ''pushed_at'') (toLocaleDateString rt) = Inr (card_updated cd))"
proof -
  let ?ps = "cycle_promises rt net repos"
  have val: "?ps ! i =
      Inr (JObj ((''id'', JStr (repos ! i)) #
             map (\<lambda>k. (k, response_field rt (net i) (repos ! i) k)) summary_fields))"
    if lt: "i < length repos" for i
  proof -
    obtain j where j: "fetchRepo (net i) (repos ! i) = Inr j" "j \<noteq> JNull" "j \<noteq> JUndefined"
      using ok lt by blast
    then show ?thesis
      using lt
      by (simp add: cycle_promises_nth fetch_summary_def then_do_def summarize_value
          response_field_def)
  qed
  have ful: "\<forall>p \<in> set ?ps. \<not> isl p"
  proof
    fix p assume "p \<in> set ?ps"
    then obtain i where "i < length repos" "p = ?ps ! i"
      by (auto simp: in_set_conv_nth cycle_promises_length)
    then show "\<not> isl p" using val by simp
  qed
  have arr: "set arrivals = {..<length ?ps}"
    by (simp only: cycle_promises_length arrive(2))
  have all: "Promise_all ?ps arrivals = Some (Inr results)"
    unfolding results using arrive(1) arr ful by (rule Promise_all_fulfilled)
  have cyc: "fetch_cycle rt net arrivals now eff (c, st) =
      (c\<lparr>items := JArr results, status := StReady\<rparr>, writeCache rt st now (eff_key eff) (JArr results))"
    using all live by (simp add: fetch_cycle_def settle_def)
  have len: "length results = length repos"
    by (simp add: results cycle_promises_length)
  have each: "results ! i =
      JObj ((''id'', JStr (repos ! i)) #
        map (\<lambda>k. (k, response_field rt (net i) (repos ! i) k)) summary_fields)"
    if "i < length repos" for i
    using that val [OF that] by (simp add: results cycle_promises_length)
  have ids: "map (\<lambda>it. get_prop rt it ''id'') results = map (\<lambda>r. Inr (JStr r)) repos"
    using len each by (intro nth_equalityI) auto
  have shape: "\<forall>i < length repos.
       results ! i =
         JObj [(''id'', JStr (repos ! i)),
               (''name'', response_field rt (net i) (repos ! i) ''name''),
               (''full_name'', response_field rt (net i) (repos ! i) ''full_name''),
               (''html_url'', response_field rt (net i) (repos ! i) ''html_url''),
               (''description'', response_field rt (net i) (repos ! i) ''description''),
               (''stargazers_count'', response_field rt (net i) (repos ! i) ''stargazers_count''),
               (''forks_count'', response_field rt (net i) (repos ! i) ''forks_count''),
               (''open_issues_count'', response_field rt (net i) (repos ! i) ''open_issues_count''),
               (''pushed_at'', response_field rt (net i) (repos ! i) ''pushed_at''),
               (''language'', response_field rt (net i) (repos ! i) ''language'')]"
    using each by (simp add: summary_fields_def)
  have r: "render rt repos (c\<lparr>items := JArr results, status := StReady\<rparr>) =
      then_do (map_throw (render_card rt) results) (\<lambda>cards. Inr (GridView cards))"
    by (simp add: render_def)
  have g: "render rt repos (c\<lparr>items := JArr results, status := StReady\<rparr>) =
      Inr (GridView (map (\<lambda>it. projr (render_card rt it)) results))"
    if "\<forall>it \<in> set results. \<not> isl (render_card rt it)"
  proof -
    have "map_throw (render_card rt) results = Inr (map (\<lambda>it. projr (render_card rt it)) results)"
      using that by (rule map_throw_Inr)
    then show ?thesis by (simp add: r then_do_def)
  qed
  have first: "Promise_all ?ps arrivals = Some (Inr results) \<and>
    fst (fetch_cycle rt net arrivals now eff (c, st)) = c\<lparr>items := JArr results, status := StReady\<rparr> \<and>
    length results = length repos \<and>
    map (\<lambda>it. get_prop rt it ''id'') results = map (\<lambda>r. Inr (JStr r)) repos"
    using all cyc len ids by simp
  have rend: "render rt repos (fst (fetch_cycle rt net arrivals now eff (c, st))) =
      then_do (map_throw (render_card rt) results) (\<lambda>cards. Inr (GridView cards)) \<and>
    ((\<forall>it \<in> set results. \<not> isl (render_card rt it)) \<longrightarrow>
       render rt repos (fst (fetch_cycle rt net arrivals now eff (c, st))) =
         Inr (GridView (map (\<lambda>it. projr (render_card rt it)) results)))"
    using cyc r g by simp
  show ?thesis
    using first shape rend render_card_fields [of rt] by (intro conjI allI impI) blast+
qed

lemma example_two_fetches:
  "fetchRepo (example_net i) ''a/b'' = Inr example_repo \<and>
   fetchRepo (example_net i) ''foo/bar'' = Inr example_repo"
  by (simp add: fetchRepo_def repo_request_def example_net_def resp_ok_def)

lemma example_two_promises:
  "cycle_promises example_runtime example_net [''a/b'', ''foo/bar''] =
     [summarize example_runtime ''a/b'' example_repo,
      summarize example_runtime ''foo/bar'' example_repo]"
  by (simp add: cycle_promises_def enumerate_eq_zip upt_rec fetch_summary_def example_two_fetches
      then_do_def)

lemma example_summary:
  "projr (summarize example_runtime r example_repo) =
     JObj [(''id'', JStr r), (''name'', JStr ''bar''), (''full_name'', JStr ''foo/bar''),
           (''html_url'', JStr ''https://github.com/foo/bar''), (''description'', JUndefined),
           (''stargazers_count'', JNum 1234), (''forks_count'', JNum 56),
           (''open_issues_count'', JNum 3), (''pushed_at'', JStr ''2024-01-01T00:00:00Z''),
           (''language'', JStr ''Go'')]"
  using example_repo_not_nullish
  by (simp add: summarize_value) (simp add: example_repo_def summary_fields_def)

lemma example_card:
  "render_card example_runtime (projr (summarize example_runtime r example_repo)) =
     Inr \<lparr>card_key = JStr ''foo/bar'', card_href = JStr ''https://github.com/foo/bar'',
          card_name = JStr ''bar'', card_language = Some (JStr ''Go''), card_description = None,
          card_stars = ''1.2K'', card_forks = ''56'', card_issues = ''3'',
          card_updated = ''1/1/2024''\<rparr>"
  by (simp only: example_summary)
    (simp add: render_card_def then_do_def compact_def example_runtime_def)

theorem items_follow_identifier_order_witness:
  "distinct [1, 0 :: nat] \<and> set [1, 0 :: nat] = {..<length [''a/b'', ''foo/bar'']} \<and>
   fetchRepo (example_net 0) ''a/b'' = Inr example_repo \<and>
   fetchRepo (example_net 1) ''foo/bar'' = Inr example_repo \<and>
   example_repo \<noteq> JNull \<and> example_repo \<noteq> JUndefined \<and>
   \<not> cancelled (start_effect [''a/b'', ''foo/bar'']) \<and>
   items (fst (fetch_cycle example_runtime example_net [1, 0] 1700000000000
            (start_effect [''a/b'', ''foo/bar'']) (example_component, example_store None))) =
     JArr [JObj [(''id'', JStr ''a/b''), (''name'', JStr ''bar''), (''full_name'', JStr ''foo/bar''),
                 (''html_url'', JStr ''https://github.com/foo/bar''), (''description'', JUndefined),
                 (''stargazers_count'', JNum 1234), (''forks_count'', JNum 56),
                 (''open_issues_count'', JNum 3), (''pushed_at'', JStr ''2024-01-01T00:00:00Z''),
                 (''language'', JStr ''Go'')],
           JObj [(''id'', JStr ''foo/bar''), (''name'', JStr ''bar''), (''full_name'', JStr ''foo/bar''),
                 (''html_url'', JStr ''https://github.com/foo/bar''), (''description'', JUndefined),
                 (''stargazers_count'', JNum 1234), (''forks_count'', JNum 56),
                 (''open_issues_count'', JNum 3), (''pushed_at'', JStr ''2024-01-01T00:00:00Z''),
                 (''language'', JStr ''Go'')]] \<and>
   status (fst (fetch_cycle example_runtime example_net [1, 0] 1700000000000
            (start_effect [''a/b'', ''foo/bar'']) (example_component, example_store None))) =
     StReady \<and>
   render example_runtime [''a/b'', ''foo/bar'']
     (fst (fetch_cycle example_runtime example_net [1, 0] 1700000000000
            (start_effect [''a/b'', ''foo/bar'']) (example_component, example_store None))) =
     Inr (GridView
       [\<lparr>card_key = JStr ''foo/bar'', card_href = JStr ''https://github.com/foo/bar'',
         card_name = JStr ''bar'', card_language = Some (JStr ''Go''), card_description = None,
         card_stars = ''1.2K'', card_forks = ''56'', card_issues = ''3'',
         card_updated = ''1/1/2024''\<rparr>,
        \<lparr>card_key = JStr ''foo/bar'', card_href = JStr ''https://github.com/foo/bar'',
         card_name = JStr ''bar'', card_language = Some (JStr ''Go''), card_description = None,
         card_stars = ''1.2K'', card_forks = ''56'', card_issues = ''3'',
         card_updated = ''1/1/2024''\<rparr>])"
proof -
  let ?ps = "cycle_promises example_runtime example_net [''a/b'', ''foo/bar'']"
  let ?done = "fst (fetch_cycle example_runtime example_net [1, 0] 1700000000000
            (start_effect [''a/b'', ''foo/bar'']) (example_component, example_store None))"
  have ok: "\<forall>i < length [''a/b'', ''foo/bar''].
      \<exists>j. fetchRepo (example_net i) ([''a/b'', ''foo/bar''] ! i) = Inr j \<and>
          j \<noteq> JNull \<and> j \<noteq> JUndefined"
    using example_repo_not_nullish example_two_fetches by (simp add: less_Suc_eq nth_Cons')
  have d: "distinct [1, 0 :: nat]" by simp
  have s: "set [1, 0 :: nat] = {..<length [''a/b'', ''foo/bar'']}" by auto
  have l: "\<not> cancelled (start_effect [''a/b'', ''foo/bar''])"
          "eff_repos (start_effect [''a/b'', ''foo/bar'']) = [''a/b'', ''foo/bar'']"
    by (simp_all add: start_effect_def)
  have res: "map projr ?ps =
      [projr (summarize example_runtime ''a/b'' example_repo),
       projr (summarize example_runtime ''foo/bar'' example_repo)]"
    by (simp add: example_two_promises)
  have cards: "\<forall>it \<in> set (map projr ?ps). \<not> isl (render_card example_runtime it)"
    by (simp add: res example_card)
  note T = items_follow_identifier_order [OF d s ok l refl,
        where c = example_component and now = 1700000000000 and st = "example_store None"
          and rt = example_runtime]
  have st: "?done = example_component\<lparr>items := JArr (map projr ?ps), status := StReady\<rparr>"
    using T [THEN conjunct2, THEN conjunct1] .
  have r: "render example_runtime [''a/b'', ''foo/bar''] ?done =
     Inr (GridView (map (\<lambda>it. projr (render_card example_runtime it)) (map projr ?ps)))"
    using T [THEN conjunct2, THEN conjunct2, THEN conjunct2, THEN conjunct2, THEN conjunct2,
        THEN conjunct2, THEN conjunct1] cards
    by blast
  have res2: "map projr ?ps =
      [JObj [(''id'', JStr ''a/b''), (''name'', JStr ''bar''), (''full_name'', JStr ''foo/bar''),
                 (''html_url'', JStr ''https://github.com/foo/bar''), (''description'', JUndefined),
                 (''stargazers_count'', JNum 1234), (''forks_count'', JNum 56),
                 (''open_issues_count'', JNum 3), (''pushed_at'', JStr ''2024-01-01T00:00:00Z''),
                 (''language'', JStr ''Go'')],
       JObj [(''id'', JStr ''foo/bar''), (''name'', JStr ''bar''), (''full_name'', JStr ''foo/bar''),
                 (''html_url'', JStr ''https://github.com/foo/bar''), (''description'', JUndefined),
                 (''stargazers_count'', JNum 1234), (''forks_count'', JNum 56),
                 (''open_issues_count'', JNum 3), (''pushed_at'', JStr ''2024-01-01T00:00:00Z''),
                 (''language'', JStr ''Go'')]]"
    by (simp only: res example_summary)
  have cardsv: "map (\<lambda>it. projr (render_card example_runtime it)) (map projr ?ps) =
      [\<lparr>card_key = JStr ''foo/bar'', card_href = JStr ''https://github.com/foo/bar'',
         card_name = JStr ''bar'', card_language = Some (JStr ''Go''), card_description = None,
         card_stars = ''1.2K'', card_forks = ''56'', card_issues = ''3'',
         card_updated = ''1/1/2024''\<rparr>,
       \<lparr>card_key = JStr ''foo/bar'', card_href = JStr ''https://github.com/foo/bar'',
         card_name = JStr ''bar'', card_language = Some (JStr ''Go''), card_description = None,
         card_stars = ''1.2K'', card_forks = ''56'', card_issues = ''3'',
         card_updated = ''1/1/2024''\<rparr>]"
    by (simp add: res example_card)
  have a: "items ?done =
      JArr [JObj [(''id'', JStr ''a/b''), (''name'', JStr ''bar''), (''full_name'', JStr ''foo/bar''),
                 (''html_url'', JStr ''https://github.com/foo/bar''), (''description'', JUndefined),
                 (''stargazers_count'', JNum 1234), (''forks_count'', JNum 56),
                 (''open_issues_count'', JNum 3), (''pushed_at'', JStr ''2024-01-01T00:00:00Z''),
                 (''language'', JStr ''Go'')],
            JObj [(''id'', JStr ''foo/bar''), (''name'', JStr ''bar''), (''full_name'', JStr ''foo/bar''),
                 (''html_url'', JStr ''https://github.com/foo/bar''), (''description'', JUndefined),
                 (''stargazers_count'', JNum 1234), (''forks_count'', JNum 56),
                 (''open_issues_count'', JNum 3), (''pushed_at'', JStr ''2024-01-01T00:00:00Z''),
                 (''language'', JStr ''Go'')]]"
    unfolding st res2 by simp
  have b: "status ?done = StReady"
    unfolding st by simp
  have r2: "render example_runtime [''a/b'', ''foo/bar''] ?done =
      Inr (GridView
        [\<lparr>card_key = JStr ''foo/bar'', card_href = JStr ''https://github.com/foo/bar'',
         card_name = JStr ''bar'', card_language = Some (JStr ''Go''), card_description = None,
         card_stars = ''1.2K'', card_forks = ''56'', card_issues = ''3'',
         card_updated = ''1/1/2024''\<rparr>,
         \<lparr>card_key = JStr ''foo/bar'', card_href = JStr ''https://github.com/foo/bar'',
         card_name = JStr ''bar'', card_language = Some (JStr ''Go''), card_description = None,
         card_stars = ''1.2K'', card_forks = ''56'', card_issues = ''3'',
         card_updated = ''1/1/2024''\<rparr>])"
    using r by (simp only: cardsv)
  have f1: "fetchRepo (example_net 0) ''a/b'' = Inr example_repo"
    and f2: "fetchRepo (example_net 1) ''foo/bar'' = Inr example_repo"
    by (simp_all add: example_two_fetches)
  have n1: "example_repo \<noteq> JNull" and n2: "example_repo \<noteq> JUndefined"
    using example_repo_not_nullish by simp_all
  show ?thesis
    by (intro conjI) (fact d s f1 f2 n1 n2 l(1) a b r2)+
qed

text \<open>
  C2. When at least one per-identifier promise is rejected and its rejection
  arrives (the other responses may arrive in any order, or not at all) and the
  cycle is live, \<^verbatim>\<open>Promise.all\<close> is rejected with the error \<open>e\<close> of one of the
  failed fetches, the cycle sets the error text and the status error and nothing
  else (the items and the store stay as they were), and the component renders
  the error view: that text and one fallback badge per identifier, in order. The
  badge of an identifier \<open>r\<close> has the key \<open>r\<close>, links to \<^verbatim>\<open>https://github.com/\<close>\<open>r\<close>, and
  shows the image \<^verbatim>\<open>https://img.shields.io/github/stars/\<close>\<open>r\<close>\<^verbatim>\<open>?style=flat\<close> with the
  alternative text \<open>r\<close>\<^verbatim>\<open> stars\<close>. The view holds nothing of the fulfilled fetches.
\<close>

theorem one_failure_fails_the_batch:
  assumes arrive: "distinct arrivals" "set arrivals \<subseteq> {..<length repos}"
    and bad: "\<exists>i \<in> set arrivals. isl (cycle_promises rt net repos ! i)"
    and live: "\<not> cancelled eff" "eff_repos eff = repos"
  shows
   "\<exists>e. Inl e \<in> set (cycle_promises rt net repos) \<and>
        Promise_all (cycle_promises rt net repos) arrivals = Some (Inl e) \<and>
        fetch_cycle rt net arrivals now eff (c, st) =
          (c\<lparr>error := Some (error_text e), status := StError\<rparr>, st) \<and>
        render rt repos (fst (fetch_cycle rt net arrivals now eff (c, st))) =
          Inr (ErrorView (Some (error_text e))
                 (map (\<lambda>r. \<lparr>badge_key = r, badge_href = ''https://github.com/'' @ r,
                            badge_alt = r @ '' stars'',
                            badge_src = ''https://img.shields.io/github/stars/'' @ r @
                              ''?style=flat''\<rparr>) repos))"
proof -
  let ?ps = "cycle_promises rt net repos"
  have sub: "set arrivals \<subseteq> {..<length ?ps}"
    using arrive(2) by (simp only: cycle_promises_length)
  obtain i0 where i0: "first_rejection ?ps arrivals = Some i0" "i0 < length ?ps" "isl (?ps ! i0)"
    using first_rejection_arrives [OF sub bad] by blast
  define e where "e = projl (?ps ! i0)"
  have mem: "Inl e \<in> set ?ps"
    using i0(2,3) unfolding e_def by (metis nth_mem sum.collapse(1))
  have all: "Promise_all ?ps arrivals = Some (Inl e)"
    unfolding e_def using arrive(1) sub i0(1) by (rule Promise_all_rejected)
  have cyc: "fetch_cycle rt net arrivals now eff (c, st) =
      (c\<lparr>error := Some (error_text e), status := StError\<rparr>, st)"
    using all live by (simp add: fetch_cycle_def settle_def)
  have "render rt repos (c\<lparr>error := Some (error_text e), status := StError\<rparr>) =
      Inr (ErrorView (Some (error_text e))
             (map (\<lambda>r. \<lparr>badge_key = r, badge_href = ''https://github.com/'' @ r,
                            badge_alt = r @ '' stars'',
                            badge_src = ''https://img.shields.io/github/stars/'' @ r @
                              ''?style=flat''\<rparr>) repos))"
    by (simp add: render_def fallback_badge_def)
  then show ?thesis using mem all cyc by auto
qed

lemma example_failing_promises:
  "cycle_promises example_runtime example_net [''a/b'', ''c/d''] =
     [summarize example_runtime ''a/b'' example_repo, Inl (Exn ''Error'' ''c/d 404'')]"
  by (simp add: cycle_promises_def enumerate_eq_zip upt_rec fetch_summary_def fetchRepo_def
      repo_request_def example_net_def resp_ok_def then_do_def number_text_def digits.simps
      digit_char_def)

theorem one_failure_fails_the_batch_witness:
  "distinct [1 :: nat] \<and> set [1 :: nat] \<subseteq> {..<length [''a/b'', ''c/d'']} \<and>
   map isl (cycle_promises example_runtime example_net [''a/b'', ''c/d'']) = [False, True] \<and>
   \<not> cancelled (start_effect [''a/b'', ''c/d'']) \<and>
   fetch_cycle example_runtime example_net [1] 1700000000000 (start_effect [''a/b'', ''c/d''])
       (example_component, example_store None) =
     (example_component\<lparr>error := Some ''c/d 404'', status := StError\<rparr>, example_store None) \<and>
   render example_runtime [''a/b'', ''c/d'']
       (fst (fetch_cycle example_runtime example_net [1] 1700000000000
              (start_effect [''a/b'', ''c/d'']) (example_component, example_store None))) =
     Inr (ErrorView (Some ''c/d 404'')
            [\<lparr>badge_key = ''a/b'', badge_href = ''https://github.com/a/b'',
              badge_alt = ''a/b stars'',
              badge_src = ''https://img.shields.io/github/stars/a/b?style=flat''\<rparr>,
             \<lparr>badge_key = ''c/d'', badge_href = ''https://github.com/c/d'',
              badge_alt = ''c/d stars'',
              badge_src = ''https://img.shields.io/github/stars/c/d?style=flat''\<rparr>])"
proof -
  let ?ps = "cycle_promises example_runtime example_net [''a/b'', ''c/d'']"
  have ps: "map isl ?ps = [False, True]"
    using example_repo_not_nullish by (simp add: example_failing_promises summarize_value)
  then have bad: "\<exists>i \<in> set [1 :: nat]. isl (?ps ! i)"
    by (simp add: example_failing_promises)
  have d: "distinct [1 :: nat]" by simp
  have s: "set [1 :: nat] \<subseteq> {..<length [''a/b'', ''c/d'']}" by simp
  have l: "\<not> cancelled (start_effect [''a/b'', ''c/d''])"
          "eff_repos (start_effect [''a/b'', ''c/d'']) = [''a/b'', ''c/d'']"
    by (simp_all add: start_effect_def)
  obtain e where e: "Inl e \<in> set ?ps"
    "fetch_cycle example_runtime example_net [1] 1700000000000 (start_effect [''a/b'', ''c/d''])
       (example_component, example_store None) =
     (example_component\<lparr>error := Some (error_text e), status := StError\<rparr>, example_store None)"
    "render example_runtime [''a/b'', ''c/d'']
       (fst (fetch_cycle example_runtime example_net [1] 1700000000000
              (start_effect [''a/b'', ''c/d'']) (example_component, example_store None))) =
     Inr (ErrorView (Some (error_text e))
            (map (\<lambda>r. \<lparr>badge_key = r, badge_href = ''https://github.com/'' @ r,
                            badge_alt = r @ '' stars'',
                            badge_src = ''https://img.shields.io/github/stars/'' @ r @
                              ''?style=flat''\<rparr>) [''a/b'', ''c/d'']))"
    using one_failure_fails_the_batch [OF d s bad l,
        where c = example_component and now = 1700000000000 and st = "example_store None"]
    by blast
  have "e = Exn ''Error'' ''c/d 404''"
    using e(1) ps by (auto simp: example_failing_promises dest: sym)
  then show ?thesis using e(2,3) ps d s l(1) by (simp add: error_text_def)
qed

text \<open>
  C4, as stated, fails: a fetch also fails with no status at all, when the
  request itself is rejected, and under a success status, when the body is not
  JSON; its error is then the runtime's.
\<close>

theorem fetch_fails_without_bad_status_counterexample:
  "example_offline (repo_request ''a/b'') = Inl (Exn ''TypeError'' ''Failed to fetch'') \<and>
   fetchRepo example_offline ''a/b'' = Inl (Exn ''TypeError'' ''Failed to fetch'') \<and>
   example_not_json (repo_request ''a/b'') =
     Inr \<lparr>resp_status = 200, resp_json = Inl (Exn ''SyntaxError'' ''Unexpected token <'')\<rparr> \<and>
   resp_ok \<lparr>resp_status = 200, resp_json = Inl (Exn ''SyntaxError'' ''Unexpected token <'')\<rparr> \<and>
   fetchRepo example_not_json ''a/b'' = Inl (Exn ''SyntaxError'' ''Unexpected token <'')"
  by (simp add: fetchRepo_def example_offline_def example_not_json_def resp_ok_def)

text \<open>
  C4, amended. A fetch whose response has a status outside 200 to 299 fails
  with the error \<^verbatim>\<open>"{identifier} {status}"\<close>; under a success status it settles as
  the body does; when the request itself is rejected it fails with that
  rejection. So for a response whose body reads as JSON the fetch fails exactly
  when the status is not a success. When a live cycle fails, the text shown is
  that of the first rejection to arrive; for \<^verbatim>\<open>["a/b", "c/d"]\<close> with only the
  second request failing, on status 404, the text is \<^verbatim>\<open>"c/d 404"\<close> in either
  arrival order, over the two fallback badges.
\<close>

theorem fetchRepo_status_errors:
  "(fetch (repo_request r) = Inr res \<and> \<not> resp_ok res \<longrightarrow>
      fetchRepo fetch r = Inl (Exn ''Error'' (r @ '' '' @ digits (resp_status res)))) \<and>
   (fetch (repo_request r) = Inr res \<and> resp_ok res \<longrightarrow> fetchRepo fetch r = resp_json res) \<and>
   (fetch (repo_request r) = Inl e \<longrightarrow> fetchRepo fetch r = Inl e) \<and>
   (fetch (repo_request r) = Inr res \<and> resp_json res = Inr j \<longrightarrow>
      (isl (fetchRepo fetch r) \<longleftrightarrow> \<not> resp_ok res)) \<and>
   (distinct arrivals \<and> set arrivals \<subseteq> {..<length repos} \<and>
    first_rejection (cycle_promises rt net repos) arrivals = Some i0 \<and>
    \<not> cancelled eff \<and> eff_repos eff = repos \<longrightarrow>
      fetch_cycle rt net arrivals now eff (c, st) =
        (c\<lparr>error := Some (error_text (projl (cycle_promises rt net repos ! i0))),
           status := StError\<rparr>, st)) \<and>
   (\<not> isl (fetch_summary rt (net 0) ''a/b'') \<and>
    net 1 (repo_request ''c/d'') = Inr res' \<and> resp_status res' = 404 \<and>
    distinct arrivals' \<and> set arrivals' = {..<2} \<and>
    \<not> cancelled eff' \<and> eff_repos eff' = [''a/b'', ''c/d''] \<longrightarrow>
      fetch_cycle rt net arrivals' now eff' (c, st) =
        (c\<lparr>error := Some ''c/d 404'', status := StError\<rparr>, st) \<and>
      render rt [''a/b'', ''c/d''] (fst (fetch_cycle rt net arrivals' now eff' (c, st))) =
        Inr (ErrorView (Some ''c/d 404'') [fallback_badge ''a/b'', fallback_badge ''c/d'']))"
proof -
  have one: "(fetch (repo_request r) = Inr res \<and> \<not> resp_ok res \<longrightarrow>
      fetchRepo fetch r = Inl (Exn ''Error'' (r @ '' '' @ digits (resp_status res)))) \<and>
   (fetch (repo_request r) = Inr res \<and> resp_ok res \<longrightarrow> fetchRepo fetch r = resp_json res) \<and>
   (fetch (repo_request r) = Inl e \<longrightarrow> fetchRepo fetch r = Inl e) \<and>
   (fetch (repo_request r) = Inr res \<and> resp_json res = Inr j \<longrightarrow>
      (isl (fetchRepo fetch r) \<longleftrightarrow> \<not> resp_ok res))"
    by (simp add: fetchRepo_def number_text_def)
  have first: "fetch_cycle rt net arrivals now eff (c, st) =
        (c\<lparr>error := Some (error_text (projl (cycle_promises rt net repos ! i0))),
           status := StError\<rparr>, st)"
    if h: "distinct arrivals" "set arrivals \<subseteq> {..<length repos}"
      "first_rejection (cycle_promises rt net repos) arrivals = Some i0"
      "\<not> cancelled eff" "eff_repos eff = repos"
  proof -
    have "set arrivals \<subseteq> {..<length (cycle_promises rt net repos)}"
      using h(2) by (simp only: cycle_promises_length)
    then have "Promise_all (cycle_promises rt net repos) arrivals =
        Some (Inl (projl (cycle_promises rt net repos ! i0)))"
      using h(1,3) by (intro Promise_all_rejected)
    then show ?thesis using h(4,5) by (simp add: fetch_cycle_def settle_def)
  qed
  have scenario: "fetch_cycle rt net arrivals' now eff' (c, st) =
        (c\<lparr>error := Some ''c/d 404'', status := StError\<rparr>, st) \<and>
      render rt [''a/b'', ''c/d''] (fst (fetch_cycle rt net arrivals' now eff' (c, st))) =
        Inr (ErrorView (Some ''c/d 404'') [fallback_badge ''a/b'', fallback_badge ''c/d''])"
    if h: "\<not> isl (fetch_summary rt (net 0) ''a/b'')"
      "net 1 (repo_request ''c/d'') = Inr res'" "resp_status res' = 404"
      "distinct arrivals'" "set arrivals' = {..<2}"
      "\<not> cancelled eff'" "eff_repos eff' = [''a/b'', ''c/d'']"
  proof -
    let ?ps = "cycle_promises rt net [''a/b'', ''c/d'']"
    have d404: "digits 404 = ''404''"
      by (simp add: digits.simps digit_char_def)
    have second: "fetch_summary rt (net 1) ''c/d'' = Inl (Exn ''Error'' ''c/d 404'')"
      using h(2,3) d404
      by (simp add: fetch_summary_def fetchRepo_def resp_ok_def then_do_def number_text_def)
    have ps: "?ps = [fetch_summary rt (net 0) ''a/b'', Inl (Exn ''Error'' ''c/d 404'')]"
      using second by (simp add: cycle_promises_def enumerate_eq_zip upt_rec)
    have arr: "set arrivals' = {..<length ?ps}"
      using h(5) by (simp add: cycle_promises_length)
    have bad: "\<exists>p \<in> set ?ps. isl p"
      by (simp add: ps)
    obtain i0 where i0: "first_rejection ?ps arrivals' = Some i0" "i0 < length ?ps" "isl (?ps ! i0)"
      using first_rejection_exists [OF arr bad] by blast
    have "i0 = 1"
      using i0(2,3) h(1) by (cases i0) (simp_all add: ps)
    then have e: "projl (?ps ! i0) = Exn ''Error'' ''c/d 404''"
      by (simp add: ps)
    have sub: "set arrivals' \<subseteq> {..<length ?ps}"
      using arr by simp
    have "Promise_all ?ps arrivals' = Some (Inl (Exn ''Error'' ''c/d 404''))"
      using Promise_all_rejected [OF h(4) sub i0(1)] e by simp
    then have cyc: "fetch_cycle rt net arrivals' now eff' (c, st) =
        (c\<lparr>error := Some ''c/d 404'', status := StError\<rparr>, st)"
      using h(6,7) by (simp add: fetch_cycle_def settle_def error_text_def)
    then show ?thesis by (simp add: render_def)
  qed
  show ?thesis using one first scenario by blast
qed

theorem fetchRepo_status_errors_witness:
  "example_net 1 (repo_request ''c/d'') =
     Inr \<lparr>resp_status = 404, resp_json = Inr (JObj [(''message'', JStr ''Not Found'')])\<rparr> \<and>
   \<not> resp_ok \<lparr>resp_status = 404, resp_json = Inr (JObj [(''message'', JStr ''Not Found'')])\<rparr> \<and>
   fetchRepo (example_net 1) ''c/d'' = Inl (Exn ''Error'' ''c/d 404'') \<and>
   \<not> isl (fetch_summary example_runtime (example_net 0) ''a/b'') \<and>
   distinct [1, 0 :: nat] \<and> set [1, 0 :: nat] = {..<2} \<and>
   \<not> cancelled (start_effect [''a/b'', ''c/d'']) \<and>
   fetch_cycle example_runtime example_net [1, 0] 1700000000000 (start_effect [''a/b'', ''c/d''])
       (example_component, example_store None) =
     (example_component\<lparr>error := Some ''c/d 404'', status := StError\<rparr>, example_store None)"
proof -
  let ?res = "\<lparr>resp_status = 404, resp_json = Inr (JObj [(''message'', JStr ''Not Found'')])\<rparr>"
  have n1: "example_net 1 (repo_request ''c/d'') = Inr ?res"
    by (simp add: example_net_def repo_request_def)
  have bad: "\<not> resp_ok ?res"
    by (simp add: resp_ok_def)
  have st: "resp_status ?res = 404"
    by simp
  have d404: "digits 404 = ''404''"
    by (simp add: digits.simps digit_char_def)
  have n0: "\<not> isl (fetch_summary example_runtime (example_net 0) ''a/b'')"
    using example_repo_not_nullish
    by (simp add: fetch_summary_def fetchRepo_def example_net_def repo_request_def resp_ok_def
        then_do_def summarize_value)
  have d: "distinct [1, 0 :: nat]" by simp
  have s: "set [1, 0 :: nat] = {..<2}" by auto
  have l: "\<not> cancelled (start_effect [''a/b'', ''c/d''])"
          "eff_repos (start_effect [''a/b'', ''c/d'']) = [''a/b'', ''c/d'']"
    by (simp_all add: start_effect_def)
  note T = fetchRepo_status_errors [where fetch = "example_net 1" and r = "''c/d''" and res = ?res
      and rt = example_runtime and net = example_net and res' = ?res and arrivals' = "[1, 0]"
      and eff' = "start_effect [''a/b'', ''c/d'']" and now = 1700000000000
      and c = example_component and st = "example_store None"]
  have a: "fetchRepo (example_net 1) ''c/d'' = Inl (Exn ''Error'' ''c/d 404'')"
    using T [THEN conjunct1] n1 bad d404 by simp
  have b: "fetch_cycle example_runtime example_net [1, 0] 1700000000000
       (start_effect [''a/b'', ''c/d'']) (example_component, example_store None) =
     (example_component\<lparr>error := Some ''c/d 404'', status := StError\<rparr>, example_store None)"
    using T [THEN conjunct2, THEN conjunct2, THEN conjunct2, THEN conjunct2, THEN conjunct2]
      n0 n1 st d s l
    by blast
  show ?thesis using n1 bad a n0 d s l(1) b by (intro conjI)
qed

text \<open>
  C5. A settlement that finds the flag set changes neither the state of the
  component nor the store, whether \<^verbatim>\<open>Promise.all\<close> was fulfilled or rejected. In
  the life of a component, started by its mount and taken through any events
  (renders with other identifier lists, the unmount, settlements of any run, in
  any order), a settlement has no effect at all once the component is
  unmounted, nor when it is of a run other than the last; the unmount leaves
  the component unmounted, and a render with a new key makes every run so far
  an earlier one.
\<close>

theorem late_results_discarded:
  assumes w: "w = run rt (mount_instance rt st0 t0 repos) evs"
  shows
   "settle rt now (cleanup eff) outcome (c, st) = (c, st) \<and>
    fetch_cycle rt net arrivals now (cleanup eff) (c, st) = (c, st) \<and>
    (\<not> mounted w \<longrightarrow> step rt w (Settle k outcome now) = w) \<and>
    (k + 1 < length (effects w) \<longrightarrow> step rt w (Settle k outcome now) = w) \<and>
    \<not> mounted (step rt w Unmount) \<and>
    (mounted w \<and> cacheKey repos' \<noteq> cacheKey (props w) \<longrightarrow>
       length (effects (step rt w (Rerender repos'))) = length (effects w) + 1)"
proof -
  have inv: "live_only_last w"
    using w by (simp add: live_only_last_run)
  have a: "settle rt now (cleanup eff) outcome (c, st) = (c, st)"
    by (simp add: settle_cancelled cleanup_def)
  have b: "fetch_cycle rt net arrivals now (cleanup eff) (c, st) = (c, st)"
    by (simp add: fetch_cycle_def settle_cancelled cleanup_def split: option.splits)
  have c: "step rt w (Settle k outcome now) = w" if "\<not> mounted w"
  proof (cases "k < length (effects w)")
    case True
    then have "cancelled (effects w ! k)"
      using inv that unfolding live_only_last_def by (meson nth_mem)
    then show ?thesis using True by (rule step_Settle_cancelled [rotated])
  next
    case False
    then show ?thesis by simp
  qed
  have d: "step rt w (Settle k outcome now) = w" if "k + 1 < length (effects w)"
  proof -
    have "k < length (butlast (effects w))"
      using that by simp
    then have "butlast (effects w) ! k \<in> set (butlast (effects w))"
      by (rule nth_mem)
    moreover have "butlast (effects w) ! k = effects w ! k"
      using that by (simp add: nth_butlast)
    ultimately have "cancelled (effects w ! k)"
      using inv unfolding live_only_last_def by metis
    moreover have "k < length (effects w)"
      using that by simp
    ultimately show ?thesis by (rule step_Settle_cancelled [rotated])
  qed
  have e: "\<not> mounted (step rt w Unmount)"
    by simp
  have f: "length (effects (step rt w (Rerender repos'))) = length (effects w) + 1"
    if "mounted w" "cacheKey repos' \<noteq> cacheKey (props w)"
    using that by (simp add: length_cancel_last)
  show ?thesis using a b c d e f by blast
qed

lemma example_mounted_value:
  "example_mounted =
     \<lparr>comp = \<lparr>items = JNull, status = StLoading, error = None\<rparr>,
      store = example_store None, props = [''a/b''], mounted = True,
      effects = [cleanup (start_effect [''foo/bar'']), start_effect [''a/b'']]\<rparr>"
  by (simp add: example_mounted_def run_def mount_instance_def mount_def readCache_def
      getItem_def example_store_def cacheKey_def cancel_last_def)

theorem late_results_discarded_witness:
  "mounted example_mounted \<and> cacheKey [''c/d''] \<noteq> cacheKey (props example_mounted) \<and>
   0 + 1 < length (effects example_mounted) \<and>
   step example_runtime example_mounted (Settle 0 (Inr [example_repo]) 1700000000001) =
     example_mounted \<and>
   length (effects (step example_runtime example_mounted (Rerender [''c/d'']))) = 3 \<and>
   step example_runtime (run example_runtime example_mounted [Unmount])
       (Settle 1 (Inr [example_repo]) 1700000000001) =
     run example_runtime example_mounted [Unmount] \<and>
   settle example_runtime 1700000000001 (cleanup (start_effect [''a/b''])) (Inr [example_repo])
       (example_component, example_store None) = (example_component, example_store None)"
proof -
  have h: "mounted example_mounted \<and> cacheKey [''c/d''] \<noteq> cacheKey (props example_mounted)"
    by (simp add: example_mounted_value cacheKey_def)
  have e: "0 + 1 < length (effects example_mounted)"
    by (simp add: example_mounted_value)
  have u: "run example_runtime example_mounted [Unmount] =
      run example_runtime
        (mount_instance example_runtime (example_store None) 1700000000000 [''foo/bar''])
        [Rerender [''a/b''], Unmount]"
    by (simp add: example_mounted_def run_def)
  have n: "\<not> mounted (run example_runtime example_mounted [Unmount])"
    by (simp add: run_def example_mounted_value)
  note T = late_results_discarded [OF example_mounted_def, where k = 0
      and outcome = "Inr [example_repo]" and now = 1700000000001 and repos' = "[''c/d'']"
      and eff = "start_effect [''a/b'']" and c = example_component and st = "example_store None"]
  note U = late_results_discarded [OF u, where k = 1
      and outcome = "Inr [example_repo]" and now = 1700000000001]
  have a: "step example_runtime example_mounted (Settle 0 (Inr [example_repo]) 1700000000001) =
      example_mounted"
    using T [THEN conjunct2, THEN conjunct2, THEN conjunct2, THEN conjunct1] e by blast
  have b: "length (effects (step example_runtime example_mounted (Rerender [''c/d'']))) = 3"
    using T [THEN conjunct2, THEN conjunct2, THEN conjunct2, THEN conjunct2, THEN conjunct2] h
    by (simp add: example_mounted_value)
  have c: "step example_runtime (run example_runtime example_mounted [Unmount])
       (Settle 1 (Inr [example_repo]) 1700000000001) =
     run example_runtime example_mounted [Unmount]"
    using U [THEN conjunct2, THEN conjunct2, THEN conjunct1] n by blast
  show ?thesis
    using h e a b c T [THEN conjunct1] by (intro conjI) simp_all
qed

text \<open>
  C10. When a live cycle fails, the settlement sets the error text and the
  status error and nothing else: the items keep their value and the store is
  the one it was. The store differs after a settlement only when the cycle was
  live and \<^verbatim>\<open>Promise.all\<close> fulfilled, and then it is what \<^verbatim>\<open>writeCache\<close> made
  of it.
\<close>

theorem failed_cycle_changes_only_error_and_status:
  "(\<not> cancelled eff \<longrightarrow>
      settle rt now eff (Inl e) (c, st) = (c\<lparr>error := Some (error_text e), status := StError\<rparr>, st) \<and>
      items (fst (settle rt now eff (Inl e) (c, st))) = items c \<and>
      snd (settle rt now eff (Inl e) (c, st)) = st) \<and>
   (\<not> cancelled eff \<and>
    Promise_all (cycle_promises rt net (eff_repos eff)) arrivals = Some (Inl e) \<longrightarrow>
      fetch_cycle rt net arrivals now eff (c, st) =
        (c\<lparr>error := Some (error_text e), status := StError\<rparr>, st)) \<and>
   (snd (settle rt now eff outcome (c, st)) \<noteq> st \<longrightarrow>
      \<not> cancelled eff \<and> \<not> isl outcome \<and>
      snd (settle rt now eff outcome (c, st)) =
        writeCache rt st now (eff_key eff) (JArr (projr outcome)))"
  by (cases outcome) (simp_all add: settle_def fetch_cycle_def)

theorem failed_cycle_changes_only_error_and_status_witness:
  "\<not> cancelled (start_effect [''foo/bar'']) \<and>
   settle example_runtime 1700000300000 (start_effect [''foo/bar''])
       (Inl (Exn ''Error'' ''foo/bar 403''))
       (\<lparr>items = JArr [], status = StReady, error = None\<rparr>, example_store (Some example_entry)) =
     (\<lparr>items = JArr [], status = StError, error = Some ''foo/bar 403''\<rparr>,
      example_store (Some example_entry))"
proof -
  have l: "\<not> cancelled (start_effect [''foo/bar''])"
    by (simp add: start_effect_def)
  show ?thesis
    using l failed_cycle_changes_only_error_and_status [where eff = "start_effect [''foo/bar'']"
        and rt = example_runtime and now = 1700000300000 and e = "Exn ''Error'' ''foo/bar 403''"
        and c = "\<lparr>items = JArr [], status = StReady, error = None\<rparr>"
        and st = "example_store (Some example_entry)", THEN conjunct1, THEN mp, OF l, THEN conjunct1]
    by (simp add: error_text_def)
qed

subsection \<open>The cache\<close>

text \<open>
  C3. Let the clock read a time later than ten minutes past the epoch (every
  value of \<^verbatim>\<open>Date.now()\<close> in use does), and let the store hold under the key a
  text that parses to an entry with a number \<open>t\<close> as its \<^verbatim>\<open>at\<close> and an array as
  its \<^verbatim>\<open>data\<close>. Then \<^verbatim>\<open>readCache\<close> returns the data exactly when the age
  \<open>now - t\<close> is at most \<open>CACHE_TTL_MS\<close> (ten minutes), and \<^verbatim>\<open>null\<close> otherwise, which
  is also what it returns when the store holds nothing under the key or a text
  that does not parse. The first state of the component has the data as its
  items and the status ready in the first case, and the status loading in the
  others.
\<close>

theorem readCache_within_ttl:
  assumes clock: "CACHE_TTL_MS < now"
  shows
   "CACHE_TTL_MS = 600000 \<and>
    (accessible st \<and> entries st (cacheKey repos) = Some raw \<and> raw \<noteq> [] \<and>
     JSON_parse rt raw = Inr (JObj ps) \<and>
     map_of ps ''at'' = Some (JNum t) \<and> map_of ps ''data'' = Some (JArr xs) \<longrightarrow>
       readCache rt st now (cacheKey repos) =
         (if now - t \<le> CACHE_TTL_MS then JArr xs else JNull) \<and>
       mount rt st now repos =
         (if now - t \<le> CACHE_TTL_MS
          then \<lparr>items = JArr xs, status = StReady, error = None\<rparr>
          else \<lparr>items = JNull, status = StLoading, error = None\<rparr>)) \<and>
    (entries st (cacheKey repos) = None \<or>
     (entries st (cacheKey repos) = Some raw \<and> isl (JSON_parse rt raw)) \<longrightarrow>
       readCache rt st now (cacheKey repos) = JNull \<and>
       mount rt st now repos = \<lparr>items = JNull, status = StLoading, error = None\<rparr>)"
proof -
  have zero: "t = 0 \<Longrightarrow> \<not> now - t \<le> CACHE_TTL_MS"
    using clock by simp
  have ttl: "CACHE_TTL_MS = 600000"
    by (simp add: CACHE_TTL_MS_def)
  have absent: "entries st (cacheKey repos) = None \<or>
     (entries st (cacheKey repos) = Some raw \<and> isl (JSON_parse rt raw)) \<longrightarrow>
       readCache rt st now (cacheKey repos) = JNull \<and>
       mount rt st now repos = \<lparr>items = JNull, status = StLoading, error = None\<rparr>"
    by (auto simp: mount_def readCache_def getItem_def split: sum.splits)
  have present: "accessible st \<and> entries st (cacheKey repos) = Some raw \<and> raw \<noteq> [] \<and>
     JSON_parse rt raw = Inr (JObj ps) \<and>
     map_of ps ''at'' = Some (JNum t) \<and> map_of ps ''data'' = Some (JArr xs) \<longrightarrow>
       readCache rt st now (cacheKey repos) =
         (if now - t \<le> CACHE_TTL_MS then JArr xs else JNull) \<and>
       mount rt st now repos =
         (if now - t \<le> CACHE_TTL_MS
          then \<lparr>items = JArr xs, status = StReady, error = None\<rparr>
          else \<lparr>items = JNull, status = StLoading, error = None\<rparr>)"
    using zero by (auto simp: readCache_entry mount_def Let_def)
  show ?thesis using ttl absent present by blast
qed

lemma example_store_entry:
  "accessible (example_store (Some example_entry)) \<and>
   entries (example_store (Some example_entry)) (cacheKey [''foo/bar'']) = Some example_entry \<and>
   example_entry \<noteq> [] \<and>
   JSON_parse example_runtime example_entry =
     Inr (JObj [(''at'', JNum 1700000000000), (''data'', JArr [])])"
  by (simp add: example_store_def cacheKey_def example_entry_def example_runtime_def
      example_parse_def)

theorem readCache_within_ttl_witness:
  "CACHE_TTL_MS < 1700000300000 \<and>
   accessible (example_store (Some example_entry)) \<and>
   entries (example_store (Some example_entry)) (cacheKey [''foo/bar'']) = Some example_entry \<and>
   JSON_parse example_runtime example_entry =
     Inr (JObj [(''at'', JNum 1700000000000), (''data'', JArr [])]) \<and>
   readCache example_runtime (example_store (Some example_entry)) 1700000300000
     (cacheKey [''foo/bar'']) = JArr [] \<and>
   mount example_runtime (example_store (Some example_entry)) 1700000300000 [''foo/bar''] =
     \<lparr>items = JArr [], status = StReady, error = None\<rparr> \<and>
   readCache example_runtime (example_store (Some example_entry)) 1700000600001
     (cacheKey [''foo/bar'']) = JNull \<and>
   mount example_runtime (example_store (Some example_entry)) 1700000600001 [''foo/bar''] =
     \<lparr>items = JNull, status = StLoading, error = None\<rparr> \<and>
   readCache example_runtime (example_store None) 1700000300000 (cacheKey [''foo/bar'']) = JNull"
proof -
  let ?st = "example_store (Some example_entry)"
  let ?ps = "[(''at'', JNum 1700000000000), (''data'', JArr [])]"
  have c1: "CACHE_TTL_MS < 1700000300000" and c2: "CACHE_TTL_MS < 1700000600001"
    by (simp_all add: CACHE_TTL_MS_def)
  have fresh: "(1700000300000 :: int) - 1700000000000 \<le> CACHE_TTL_MS"
    and stale: "\<not> (1700000600001 :: int) - 1700000000000 \<le> CACHE_TTL_MS"
    by (simp_all add: CACHE_TTL_MS_def)
  have h: "accessible ?st \<and> entries ?st (cacheKey [''foo/bar'']) = Some example_entry \<and>
     example_entry \<noteq> [] \<and> JSON_parse example_runtime example_entry = Inr (JObj ?ps) \<and>
     map_of ?ps ''at'' = Some (JNum 1700000000000) \<and> map_of ?ps ''data'' = Some (JArr [])"
    using example_store_entry by simp
  have n: "entries (example_store None) (cacheKey [''foo/bar'']) = None \<or>
      (entries (example_store None) (cacheKey [''foo/bar'']) = Some raw \<and>
       isl (JSON_parse example_runtime raw))" for raw
    by (simp add: example_store_def)
  note r1 = readCache_within_ttl [OF c1, where st = ?st and repos = "[''foo/bar'']"
        and raw = example_entry and rt = example_runtime and ps = ?ps
        and t = 1700000000000 and xs = "[]", THEN conjunct2, THEN conjunct1, THEN mp, OF h]
  note r2 = readCache_within_ttl [OF c2, where st = ?st and repos = "[''foo/bar'']"
        and raw = example_entry and rt = example_runtime and ps = ?ps
        and t = 1700000000000 and xs = "[]", THEN conjunct2, THEN conjunct1, THEN mp, OF h]
  note r3 = readCache_within_ttl [OF c1, where st = "example_store None"
        and repos = "[''foo/bar'']" and rt = example_runtime,
        THEN conjunct2, THEN conjunct2, THEN mp, OF n]
  have a1: "readCache example_runtime ?st 1700000300000 (cacheKey [''foo/bar'']) = JArr []"
    using r1 [THEN conjunct1] fresh by (simp only: if_True)
  have a2: "mount example_runtime ?st 1700000300000 [''foo/bar''] =
     \<lparr>items = JArr [], status = StReady, error = None\<rparr>"
    using r1 [THEN conjunct2] fresh by (simp only: if_True)
  have a3: "readCache example_runtime ?st 1700000600001 (cacheKey [''foo/bar'']) = JNull"
    using r2 [THEN conjunct1] stale by (simp only: if_False)
  have a4: "mount example_runtime ?st 1700000600001 [''foo/bar''] =
     \<lparr>items = JNull, status = StLoading, error = None\<rparr>"
    using r2 [THEN conjunct2] stale by (simp only: if_False)
  show ?thesis
    using c1 h a1 a2 a3 a4 r3 [THEN conjunct1] by (intro conjI) simp_all
qed




text \<open>
  C6. The key is \<^verbatim>\<open>gh:repos:\<close> followed by the identifiers joined with commas,
  and it is the key the effect closes over. Two lists of the same identifiers in
  different orders have different keys (identifiers \<^verbatim>\<open>owner/name\<close> hold no
  comma). A fulfilled, live settlement whose write the store admits leaves under
  the key the serialised object \<^verbatim>\<open>{at: now, data: results}\<close>, and every other
  key as it was; so does a whole cycle in which every promise is fulfilled, with
  the summaries in list order as the data.
\<close>

theorem cache_key_and_stored_entry:
  "cacheKey repos = ''gh:repos:'' @ join '','' repos \<and>
   eff_key (start_effect repos) = cacheKey repos \<and>
   (mset xs = mset ys \<and> xs \<noteq> ys \<and> (\<forall>r \<in> set xs. CHR '','' \<notin> set r) \<longrightarrow>
      cacheKey xs \<noteq> cacheKey ys) \<and>
   (\<not> cancelled eff \<and> accessible st \<and>
    admits st (eff_key eff) (JSON_stringify rt (JObj [(''at'', JNum now), (''data'', JArr results)])) \<longrightarrow>
      entries (snd (settle rt now eff (Inr results) (c, st))) (eff_key eff) =
        Some (JSON_stringify rt (JObj [(''at'', JNum now), (''data'', JArr results)])) \<and>
      (\<forall>k. k \<noteq> eff_key eff \<longrightarrow>
         entries (snd (settle rt now eff (Inr results) (c, st))) k = entries st k)) \<and>
   (distinct arrivals \<and> set arrivals = {..<length repos} \<and>
    (\<forall>p \<in> set (cycle_promises rt net repos). \<not> isl p) \<and> accessible st \<and>
    admits st (cacheKey repos)
      (JSON_stringify rt
         (JObj [(''at'', JNum now), (''data'', JArr (map projr (cycle_promises rt net repos)))])) \<longrightarrow>
      entries (snd (fetch_cycle rt net arrivals now (start_effect repos) (c, st))) (cacheKey repos) =
        Some (JSON_stringify rt
          (JObj [(''at'', JNum now), (''data'', JArr (map projr (cycle_promises rt net repos)))])))"
proof -
  have inj: "cacheKey xs \<noteq> cacheKey ys"
    if "mset xs = mset ys" "xs \<noteq> ys" "\<forall>r \<in> set xs. CHR '','' \<notin> set r"
  proof
    assume "cacheKey xs = cacheKey ys"
    then have j: "join '','' xs = join '','' ys" by (simp add: cacheKey_def)
    have len: "length xs = length ys" using that(1) by (rule mset_eq_length)
    have "set xs = set ys" using that(1) by (rule mset_eq_setD)
    then have "\<forall>r \<in> set ys. CHR '','' \<notin> set r" using that(3) by simp
    then have "xs = ys" using len that(3) j by (intro join_comma_inj)
    then show False using that(2) by simp
  qed
  have cyc: "entries (snd (fetch_cycle rt net arrivals now (start_effect repos) (c, st)))
        (cacheKey repos) =
      Some (JSON_stringify rt
        (JObj [(''at'', JNum now), (''data'', JArr (map projr (cycle_promises rt net repos)))]))"
    if h: "distinct arrivals" "set arrivals = {..<length repos}"
      "\<forall>p \<in> set (cycle_promises rt net repos). \<not> isl p" "accessible st"
      "admits st (cacheKey repos)
        (JSON_stringify rt
          (JObj [(''at'', JNum now), (''data'', JArr (map projr (cycle_promises rt net repos)))]))"
  proof -
    have "set arrivals = {..<length (cycle_promises rt net repos)}"
      by (simp only: cycle_promises_length h(2))
    then have "Promise_all (cycle_promises rt net repos) arrivals =
        Some (Inr (map projr (cycle_promises rt net repos)))"
      using h(1,3) by (intro Promise_all_fulfilled)
    then show ?thesis
      using h(4,5) by (simp add: fetch_cycle_def settle_def start_effect_def writeCache_admitted)
  qed
  have rest: "cacheKey repos = ''gh:repos:'' @ join '','' repos \<and>
   eff_key (start_effect repos) = cacheKey repos \<and>
   (\<not> cancelled eff \<and> accessible st \<and>
    admits st (eff_key eff) (JSON_stringify rt (JObj [(''at'', JNum now), (''data'', JArr results)])) \<longrightarrow>
      entries (snd (settle rt now eff (Inr results) (c, st))) (eff_key eff) =
        Some (JSON_stringify rt (JObj [(''at'', JNum now), (''data'', JArr results)])) \<and>
      (\<forall>k. k \<noteq> eff_key eff \<longrightarrow>
         entries (snd (settle rt now eff (Inr results) (c, st))) k = entries st k))"
    by (auto simp: cacheKey_def start_effect_def settle_def writeCache_admitted)
  show ?thesis
    using inj cyc rest by blast
qed

theorem cache_key_and_stored_entry_witness:
  "cacheKey [''a/b'', ''c/d''] = ''gh:repos:a/b,c/d'' \<and>
   mset [''a/b'', ''c/d''] = mset [''c/d'', ''a/b''] \<and>
   cacheKey [''a/b'', ''c/d''] \<noteq> cacheKey [''c/d'', ''a/b''] \<and>
   \<not> cancelled (start_effect [''foo/bar'']) \<and> accessible (example_store None) \<and>
   entries (snd (settle example_runtime 1700000000000 (start_effect [''foo/bar'']) (Inr [])
                   (example_component, example_store None))) ''gh:repos:foo/bar'' =
     Some ''{\"at\":1700000000000,\"data\":[]}''"
proof -
  have m: "mset [''a/b'', ''c/d''] = mset [''c/d'', ''a/b'']"
    by (simp add: add.commute)
  have n: "[''a/b'', ''c/d''] \<noteq> [''c/d'', ''a/b'']"
    by simp
  have f: "\<forall>r \<in> set [''a/b'', ''c/d'']. CHR '','' \<notin> set r"
    by simp
  have k: "eff_key (start_effect [''foo/bar'']) = ''gh:repos:foo/bar''"
    by (simp add: start_effect_def cacheKey_def)
  have ser: "JSON_stringify example_runtime (JObj [(''at'', JNum 1700000000000), (''data'', JArr [])]) =
      ''{\"at\":1700000000000,\"data\":[]}''"
    by (simp add: example_runtime_def number_text_def digits.simps digit_char_def)
  have h: "\<not> cancelled (start_effect [''foo/bar'']) \<and> accessible (example_store None) \<and>
      admits (example_store None) (eff_key (start_effect [''foo/bar'']))
        (JSON_stringify example_runtime (JObj [(''at'', JNum 1700000000000), (''data'', JArr [])]))"
    by (simp add: start_effect_def example_store_def)
  note T = cache_key_and_stored_entry [where repos = "[''a/b'', ''c/d'']"
      and xs = "[''a/b'', ''c/d'']" and ys = "[''c/d'', ''a/b'']"
      and eff = "start_effect [''foo/bar'']" and st = "example_store None"
      and rt = example_runtime and now = 1700000000000 and results = "[]"
      and c = example_component]
  have a: "cacheKey [''a/b'', ''c/d''] = ''gh:repos:a/b,c/d''"
    using T [THEN conjunct1] by simp
  have b: "cacheKey [''a/b'', ''c/d''] \<noteq> cacheKey [''c/d'', ''a/b'']"
    using T [THEN conjunct2, THEN conjunct2, THEN conjunct1] m n f by blast
  have c: "entries (snd (settle example_runtime 1700000000000 (start_effect [''foo/bar'']) (Inr [])
                   (example_component, example_store None))) ''gh:repos:foo/bar'' =
     Some ''{\"at\":1700000000000,\"data\":[]}''"
    using T [THEN conjunct2, THEN conjunct2, THEN conjunct2, THEN conjunct1, THEN mp, OF h,
        THEN conjunct1]
    by (simp only: k ser)
  show ?thesis using a m b h c by (intro conjI) simp_all
qed

subsection \<open>Formatting and the counter\<close>

text \<open>
  C8. \<^verbatim>\<open>compact(n)\<close> is the formatter's text when the formatter returns one, and
  \<^verbatim>\<open>String(n)\<close> when the formatter throws. On a number it always returns and
  never throws, whatever the formatter does; for a count \<open>k\<close> the fallback is the
  string of the decimal digits of \<open>k\<close>.
\<close>

theorem compact_formats_or_falls_back:
  "(NumberFormat_compact rt n = Inr s \<longrightarrow> compact rt n = Inr s) \<and>
   (NumberFormat_compact rt n = Inl e \<longrightarrow> compact rt n = js_String rt n) \<and>
   \<not> isl (compact rt (JNum m)) \<and>
   (NumberFormat_compact rt (JNum (int k)) = Inl e \<longrightarrow>
      compact rt (JNum (int k)) = Inr (digits k) \<and>
      set (digits k) \<subseteq> set ''0123456789'' \<and> decimal_value (digits k) = k)"
proof -
  have total: "\<not> isl (compact rt (JNum m))"
    by (cases "NumberFormat_compact rt (JNum m)") (simp_all add: compact_def)
  show ?thesis
    using total digits_are_digits [of k]
    by (simp add: compact_def number_text_def decimal_value_digits)
qed

theorem compact_formats_or_falls_back_witness:
  "NumberFormat_compact example_runtime (JNum 1234) = Inr ''1.2K'' \<and>
   compact example_runtime (JNum 1234) = Inr ''1.2K'' \<and>
   NumberFormat_compact example_runtime (JNum (int 7)) = Inl (Exn ''RangeError'' ''Invalid notation'') \<and>
   compact example_runtime (JNum (int 7)) = Inr ''7''"
proof -
  have f: "NumberFormat_compact example_runtime (JNum 1234) = Inr ''1.2K''"
    by (simp add: example_runtime_def)
  have t: "NumberFormat_compact example_runtime (JNum (int 7)) =
             Inl (Exn ''RangeError'' ''Invalid notation'')"
    by (simp add: example_runtime_def)
  have d7: "digits 7 = ''7''"
    by (simp add: digits.simps digit_char_def)
  have a: "compact example_runtime (JNum 1234) = Inr ''1.2K''"
    using f compact_formats_or_falls_back [where rt = example_runtime and n = "JNum 1234"
        and s = "''1.2K''", THEN conjunct1]
    by blast
  have b: "compact example_runtime (JNum (int 7)) = Inr ''7''"
    using t d7 compact_formats_or_falls_back [where rt = example_runtime and k = 7
        and e = "Exn ''RangeError'' ''Invalid notation''",
        THEN conjunct2, THEN conjunct2, THEN conjunct2]
    by simp
  show ?thesis using f a t b by (intro conjI)
qed

text \<open>
  C9. The counter starts at 0 and shows \<^verbatim>\<open>Count: 0\<close>; an activation replaces \<open>n\<close>
  by \<open>n + 1\<close>, so one activation after the mount shows \<^verbatim>\<open>Count: 1\<close> and \<open>k\<close> of them
  give \<open>k\<close>; the state is never negative; and a mount starts from 0 again
  whatever came before it.
\<close>

theorem Counter_counts:
  "Counter_mount = 0 \<and>
   Counter_render Counter_mount = ''Count: 0'' \<and>
   Counter_step n Activate = n + 1 \<and>
   Counter_render (Counter_run [Activate]) = ''Count: 1'' \<and>
   Counter_run (replicate k Activate) = int k \<and>
   0 \<le> Counter_run evs \<and>
   Counter_run (evs @ [Remount]) = Counter_mount \<and>
   Counter_render (Counter_run (evs @ [Remount])) = ''Count: 0''"
  by (simp add: Counter_run_def Counter_run_activate Counter_fold_nonneg Counter_mount_def
      Counter_click_def Counter_render_def number_text_def digits.simps digit_char_def)

theorem Counter_counts_witness:
  "Counter_run (replicate 3 Activate) = 3 \<and>
   Counter_render (Counter_run ([Activate, Activate] @ [Remount])) = ''Count: 0''"
proof -
  note T = Counter_counts [where k = 3 and evs = "[Activate, Activate]" and n = 0]
  have a: "Counter_run (replicate 3 Activate) = 3"
    using T by simp
  have b: "Counter_render (Counter_run ([Activate, Activate] @ [Remount])) = ''Count: 0''"
    using T by blast
  show ?thesis using a b by (intro conjI)
qed

end
